theory Spec2Isabelle
  imports Complex_Main
begin

section \<open>The console: standard input and standard output\<close>

text \<open>
  The program talks to the user through \<^verbatim>\<open>cin\<close> and \<^verbatim>\<open>cout\<close> only. The console
  state holds the characters of standard input that are still unread (up to end of file),
  the two error flags of \<^verbatim>\<open>cin\<close> the program can observe (\<^verbatim>\<open>failbit\<close>, \<^verbatim>\<open>eofbit\<close>),
  and everything inserted into \<^verbatim>\<open>cout\<close> so far, one item per \<^verbatim>\<open><<\<close>.

  A \<^verbatim>\<open>double\<close> is modelled by the real number it denotes: the rounding of binary
  floating point is outside this model.
\<close>

datatype out_item =
    Txt string
  | IntO int
  | DblO real
  | Fixed
  | SetPrecision nat
  | SetW nat
  | AdjLeft
  | AdjRight

record console =
  inp :: string
  failbit :: bool
  eofbit :: bool
  out :: "out_item list"

definition cout :: "out_item \<Rightarrow> console \<Rightarrow> console" where
  "cout x c = c\<lparr>out := out c @ [x]\<rparr>"

definition couts :: "out_item list \<Rightarrow> console \<Rightarrow> console" where
  "couts xs c = c\<lparr>out := out c @ xs\<rparr>"

definition newline :: char where
  "newline = CHR 0x0A"

definition isspace :: "char \<Rightarrow> bool" where
  "isspace ch = (ch = CHR '' '' \<or> ch = CHR 0x09 \<or> ch = CHR 0x0A \<or> ch = CHR 0x0B
     \<or> ch = CHR 0x0C \<or> ch = CHR 0x0D)"

definition isdigit :: "char \<Rightarrow> bool" where
  "isdigit ch = (ch \<in> set ''0123456789'')"

definition digit_val :: "char \<Rightarrow> nat" where
  "digit_val ch = of_char ch - 48"

definition dec :: "string \<Rightarrow> nat" where
  "dec ds = foldl (\<lambda>n ch. 10 * n + digit_val ch) 0 ds"

text \<open>\<^verbatim>\<open>tolower\<close> in the C locale: the capital letters are mapped, nothing else.\<close>

definition tolower :: "char \<Rightarrow> char" where
  "tolower ch =
     (case map_of (zip ''ABCDEFGHIJKLMNOPQRSTUVWXYZ'' ''abcdefghijklmnopqrstuvwxyz'') ch of
        None \<Rightarrow> ch
      | Some l \<Rightarrow> l)"

text \<open>\<^verbatim>\<open>cin.good()\<close>, \<^verbatim>\<open>cin.fail()\<close> and \<^verbatim>\<open>cin.clear()\<close>.\<close>

definition good :: "console \<Rightarrow> bool" where
  "good c = (\<not> failbit c \<and> \<not> eofbit c)"

definition clear :: "console \<Rightarrow> console" where
  "clear c = c\<lparr>failbit := False, eofbit := False\<rparr>"

text \<open>
  The sentry of a formatted extraction (\<^verbatim>\<open>cin >> x\<close>): a stream that is not good gets
  \<^verbatim>\<open>failbit\<close>; otherwise leading white space is skipped, new lines included, and
  reaching end of file there sets \<^verbatim>\<open>failbit\<close> and \<^verbatim>\<open>eofbit\<close>.
\<close>

definition sentry :: "console \<Rightarrow> bool \<times> console" where
  "sentry c =
     (if \<not> good c then (False, c\<lparr>failbit := True\<rparr>)
      else (case dropWhile isspace (inp c) of
              [] \<Rightarrow> (False, c\<lparr>inp := [], failbit := True, eofbit := True\<rparr>)
            | r # rs \<Rightarrow> (True, c\<lparr>inp := r # rs\<rparr>)))"

text \<open>
  \<^verbatim>\<open>cin.ignore(numeric_limits<streamsize>::max(), '\n')\<close>: an unformatted input
  function. On a good stream it discards characters up to and including the next new
  line; if there is none it discards everything and sets \<^verbatim>\<open>eofbit\<close>.
\<close>

definition ignore_line :: "console \<Rightarrow> console" where
  "ignore_line c =
     (if \<not> good c then c\<lparr>failbit := True\<rparr>
      else (case dropWhile (\<lambda>ch. ch \<noteq> newline) (inp c) of
              [] \<Rightarrow> c\<lparr>inp := [], eofbit := True\<rparr>
            | r # rs \<Rightarrow> c\<lparr>inp := rs\<rparr>))"

text \<open>\<^verbatim>\<open>cin.get()\<close> with its result dropped: one character is consumed, if there is one.\<close>

definition get :: "console \<Rightarrow> console" where
  "get c =
     (if \<not> good c then c\<lparr>failbit := True\<rparr>
      else (case inp c of
              [] \<Rightarrow> c\<lparr>failbit := True, eofbit := True\<rparr>
            | r # rs \<Rightarrow> c\<lparr>inp := rs\<rparr>))"

text \<open>
  After a scan the stream has \<^verbatim>\<open>eofbit\<close> when the scan ran into the end of the input,
  and \<^verbatim>\<open>failbit\<close> when no value was stored.
\<close>

definition scanned :: "string \<Rightarrow> bool \<Rightarrow> console \<Rightarrow> console" where
  "scanned rest ok c = c\<lparr>inp := rest, failbit := \<not> ok, eofbit := (rest = [])\<rparr>"

text \<open>
  \<^verbatim>\<open>cin >> var\<close> for an \<^verbatim>\<open>int\<close>: an optional sign, then decimal digits up to the
  first character that is not a digit. No digit, or a value that does not fit 32 bits, is
  a failure. The result is the value stored, if the extraction succeeded.
\<close>

definition INT_MAX :: int where
  "INT_MAX = 2147483647"

definition INT_MIN :: int where
  "INT_MIN = - 2147483648"

definition take_sign :: "string \<Rightarrow> bool \<times> string" where
  "take_sign s =
     (case s of
        [] \<Rightarrow> (False, [])
      | ch # rs \<Rightarrow> if ch = CHR ''-'' then (True, rs)
                   else if ch = CHR ''+'' then (False, rs) else (False, s))"

definition extract_int :: "console \<Rightarrow> int option \<times> console" where
  "extract_int c =
     (case sentry c of
        (False, c1) \<Rightarrow> (None, c1)
      | (True, c1) \<Rightarrow>
          (let (neg, s1) = take_sign (inp c1);
               ds = takeWhile isdigit s1;
               rest = dropWhile isdigit s1;
               v = (if neg then - int (dec ds) else int (dec ds));
               ok = (ds \<noteq> [] \<and> INT_MIN \<le> v \<and> v \<le> INT_MAX)
           in (if ok then Some v else None, scanned rest ok c1)))"

text \<open>
  \<^verbatim>\<open>cin >> var\<close> for a \<^verbatim>\<open>double\<close>: an optional sign, digits, an optional decimal
  point with more digits, and, once a digit has been seen, an optional exponent
  (\<^verbatim>\<open>e\<close> or \<^verbatim>\<open>E\<close>, an optional sign, digits). The text scanned must be a complete
  decimal number and must not overflow the range of \<^verbatim>\<open>double\<close>.
\<close>

definition DBL_OVERFLOW :: real where
  "DBL_OVERFLOW = 2 ^ 1024 - 2 ^ 970"

definition take_frac :: "string \<Rightarrow> bool \<times> string \<times> string" where
  "take_frac s =
     (case s of
        [] \<Rightarrow> (False, [], [])
      | ch # rs \<Rightarrow> if ch = CHR ''.'' then (True, takeWhile isdigit rs, dropWhile isdigit rs)
                   else (False, [], s))"

definition take_exp :: "bool \<Rightarrow> string \<Rightarrow> bool \<times> bool \<times> string \<times> string" where
  "take_exp mant s =
     (case s of
        [] \<Rightarrow> (False, False, [], [])
      | ch # rs \<Rightarrow>
          if mant \<and> (ch = CHR ''e'' \<or> ch = CHR ''E'')
          then (let (eneg, s1) = take_sign rs
                in (True, eneg, takeWhile isdigit s1, dropWhile isdigit s1))
          else (False, False, [], s))"

definition extract_double :: "console \<Rightarrow> real option \<times> console" where
  "extract_double c =
     (case sentry c of
        (False, c1) \<Rightarrow> (None, c1)
      | (True, c1) \<Rightarrow>
          (let (neg, s1) = take_sign (inp c1);
               ip = takeWhile isdigit s1;
               (dot, fp, s2) = take_frac (dropWhile isdigit s1);
               mant = (ip @ fp \<noteq> []);
               (ex, eneg, ed, rest) = take_exp mant s2;
               m = real (dec (ip @ fp)) / 10 ^ length fp;
               a = (if eneg then m / 10 ^ dec ed else m * 10 ^ dec ed);
               v = (if neg then - a else a);
               ok = (mant \<and> (if ex then ed \<noteq> [] else True) \<and> a < DBL_OVERFLOW)
           in (if ok then Some v else None, scanned rest ok c1)))"

text \<open>
  \<^verbatim>\<open>cin >> var\<close> for a \<^verbatim>\<open>string\<close>: the characters up to the next white space. After
  a successful sentry there is at least one.
\<close>

definition extract_string :: "console \<Rightarrow> string option \<times> console" where
  "extract_string c =
     (case sentry c of
        (False, c1) \<Rightarrow> (None, c1)
      | (True, c1) \<Rightarrow>
          (let tok = takeWhile (\<lambda>ch. \<not> isspace ch) (inp c1);
               rest = dropWhile (\<lambda>ch. \<not> isspace ch) (inp c1)
           in (Some tok, scanned rest True c1)))"

section \<open>UI\<close>

definition header_items :: "string \<Rightarrow> out_item list" where
  "header_items title = [Txt (newline # ''>>> ===== ''), Txt title, Txt ('' ===== <<<'' @ [newline])]"

definition UI_header :: "string \<Rightarrow> console \<Rightarrow> console" where
  "UI_header title c = couts (header_items title) c"

definition line_items :: "out_item list" where
  "line_items = [Txt (replicate 45 CHR ''-''), Txt [newline]]"

definition UI_line :: "console \<Rightarrow> console" where
  "UI_line c = couts line_items c"

definition UI_goodbyeMessage :: "string \<Rightarrow> console \<Rightarrow> console" where
  "UI_goodbyeMessage message c = cout (Txt message) c"

definition UI_pauseBuffer :: "console \<Rightarrow> console" where
  "UI_pauseBuffer c = get (ignore_line (cout (Txt (newline # ''>>> Press Enter to continue...'')) c))"

section \<open>InputValidator\<close>

text \<open>
  The readers of the validator repeat until the user supplies an acceptable value, so they
  are partial functions: \<open>None\<close> is a run that never returns.

  \<^verbatim>\<open>getValidated\<close> is a template over the type read; here it takes the extraction
  \<^verbatim>\<open>cin >> var\<close> of that type as its first argument. The extraction gives back the
  value it stored in \<^verbatim>\<open>var\<close>, if it stored one, and the loop tests \<^verbatim>\<open>cin.fail()\<close> as
  the source does. For the three extractions above a clear \<^verbatim>\<open>failbit\<close> always comes
  with a stored value (lemmas \<open>extract_int_failbit\<close>, \<open>extract_double_failbit\<close>,
  \<open>extract_string_failbit\<close>), so the inner \<open>None\<close> case never arises.
\<close>

definition invalid_input :: out_item where
  "invalid_input = Txt (newline # ''[ERROR] Invalid input! Try again.'' @ [newline])"

partial_function (option) getValidated ::
  "(console \<Rightarrow> 'a option \<times> console) \<Rightarrow> string \<Rightarrow> console \<Rightarrow> ('a \<times> console) option" where
  "getValidated extract prompt c =
     (case extract (cout (Txt prompt) c) of
        (var, c1) \<Rightarrow>
          if \<not> failbit c1 then (case var of Some v \<Rightarrow> Some (v, c1) | None \<Rightarrow> None)
          else getValidated extract prompt (ignore_line (clear (cout invalid_input c1))))"

text \<open>The two range messages, as the chains of \<^verbatim>\<open><<\<close> that print them.\<close>

definition choice_error :: "int \<Rightarrow> int \<Rightarrow> out_item list" where
  "choice_error mn mx =
     [Txt ''[ERROR] Choice must be '', IntO mn, Txt ''-'', IntO mx, Txt (''. Try again.'' @ [newline])]"

definition value_error :: "real \<Rightarrow> real \<Rightarrow> out_item list" where
  "value_error mn mx =
     [Txt ''[ERROR] Value must be between '', DblO mn, Txt '' and '', DblO mx,
      Txt (''. Try again.'' @ [newline])]"

definition yes_no_error :: out_item where
  "yes_no_error = Txt (''[ERROR] Please type 'y' or 'n'.'' @ [newline])"

partial_function (option) getValidatedChoice ::
  "string \<Rightarrow> int \<Rightarrow> int \<Rightarrow> console \<Rightarrow> (int \<times> console) option" where
  "getValidatedChoice prompt mn mx c =
     (case getValidated extract_int prompt c of
        None \<Rightarrow> None
      | Some (choice, c1) \<Rightarrow>
          if choice < mn \<or> choice > mx
          then getValidatedChoice prompt mn mx (couts (choice_error mn mx) c1)
          else Some (choice, c1))"

partial_function (option) getValidatedDouble ::
  "string \<Rightarrow> real \<Rightarrow> real \<Rightarrow> console \<Rightarrow> (real \<times> console) option" where
  "getValidatedDouble prompt mn mx c =
     (case getValidated extract_double prompt c of
        None \<Rightarrow> None
      | Some (v, c1) \<Rightarrow>
          if v < mn \<or> v > mx
          then getValidatedDouble prompt mn mx (couts (value_error mn mx) c1)
          else Some (v, c1))"

partial_function (option) getValidatedYesNo :: "string \<Rightarrow> console \<Rightarrow> (bool \<times> console) option" where
  "getValidatedYesNo prompt c =
     (case getValidated extract_string (prompt @ '' (y/n): '') c of
        None \<Rightarrow> None
      | Some (input0, c1) \<Rightarrow>
          (let input = map tolower input0
           in if input = ''y'' \<or> input = ''yes'' then Some (True, c1)
              else if input = ''n'' \<or> input = ''no'' then Some (False, c1)
              else getValidatedYesNo prompt (cout yes_no_error c1)))"

section \<open>Repetition until a break\<close>

text \<open>
  Every menu is a \<^verbatim>\<open>while (true)\<close> whose body either leaves the loop (\<^verbatim>\<open>break\<close>,
  \<^verbatim>\<open>return\<close>) or falls through to the next round.
\<close>

datatype flow = Break console | Next console

partial_function (option) forever ::
  "(console \<Rightarrow> flow option) \<Rightarrow> console \<Rightarrow> console option" where
  "forever body c =
     (case body c of
        None \<Rightarrow> None
      | Some (Break c1) \<Rightarrow> Some c1
      | Some (Next c1) \<Rightarrow> forever body c1)"

section \<open>VirtualStudentInfo\<close>

definition VirtualStudentInfo_run :: "console \<Rightarrow> console" where
  "VirtualStudentInfo_run c =
     UI_pauseBuffer
       (couts [Txt (''Name: Alberto Jr Deniros'' @ [newline]),
               Txt (''Section and Course: BSCS 1-A'' @ [newline]),
               Txt (''AGE: 23'' @ [newline]),
               Txt (''GENDER: MALE'' @ [newline]),
               Txt (''CODING DEVICES: Desktop Computer'' @ [newline])]
          (UI_header ''Virtual Student Info'' c))"

section \<open>StudentGradeEvaluator\<close>

record Grade =
  grade_name :: string
  grade_value :: real

definition NUMBER_OF_GRADES :: int where
  "NUMBER_OF_GRADES = 4"

definition PASSING_GRADE :: int where
  "PASSING_GRADE = 80"

definition MIN_GRADE :: int where
  "MIN_GRADE = 0"

definition MAX_GRADE :: int where
  "MAX_GRADE = 100"

definition grades_init :: "Grade list" where
  "grades_init =
     [\<lparr>grade_name = ''Prelim'', grade_value = 0\<rparr>,
      \<lparr>grade_name = ''Midterm'', grade_value = 0\<rparr>,
      \<lparr>grade_name = ''PreFinal'', grade_value = 0\<rparr>,
      \<lparr>grade_name = ''Final'', grade_value = 0\<rparr>]"

text \<open>
  The loop that reads the grades, over the entries still to be read; \<open>sum0\<close> is the
  accumulator \<^verbatim>\<open>sum\<close> of the source.
\<close>

fun collect_grades :: "Grade list \<Rightarrow> real \<Rightarrow> console \<Rightarrow> (Grade list \<times> real \<times> console) option" where
  "collect_grades [] sum0 c = Some ([], sum0, c)"
| "collect_grades (g # gs) sum0 c =
     (case getValidatedDouble (''Enter '' @ grade_name g @ '' Grade: '')
             (real_of_int MIN_GRADE) (real_of_int MAX_GRADE) c of
        None \<Rightarrow> None
      | Some (v, c1) \<Rightarrow>
          (case collect_grades gs (sum0 + v) c1 of
             None \<Rightarrow> None
           | Some (gs', sum1, c2) \<Rightarrow> Some (g\<lparr>grade_value := v\<rparr> # gs', sum1, c2)))"

definition StudentGradeEvaluator_run :: "console \<Rightarrow> console option" where
  "StudentGradeEvaluator_run c =
     (case collect_grades grades_init 0 (UI_header ''Student Grade Evaluator'' c) of
        None \<Rightarrow> None
      | Some (grades, sum0, c1) \<Rightarrow>
          (let average = sum0 / real_of_int NUMBER_OF_GRADES;
               c2 = couts [Txt ''Passing grade: '', IntO PASSING_GRADE, Txt [newline],
                           Txt ''Your average: '', DblO average, Txt [newline],
                           Txt ''REMARKS: ''] (UI_line c1);
               c3 = (if average \<ge> real_of_int PASSING_GRADE
                     then UI_header ''PASADO KA BOI!!'' c2
                     else UI_header ''BAGSAK KA BOI!!'' c2)
           in Some (UI_pauseBuffer (UI_line c3))))"

section \<open>TriangleLoopActivity\<close>

function right_row :: "int \<Rightarrow> int \<Rightarrow> console \<Rightarrow> console" where
  "right_row j i c = (if j \<le> i then right_row (j + 1) i (cout (Txt ''*'') c) else c)"
  by pat_completeness auto
termination
  by (relation "measure (\<lambda>(j, i, c). nat (i + 1 - j))") auto

function right_rows :: "int \<Rightarrow> int \<Rightarrow> console \<Rightarrow> console" where
  "right_rows i height c =
     (if i < height then right_rows (i + 1) height (cout (Txt [newline]) (right_row 0 i c)) else c)"
  by pat_completeness auto
termination
  by (relation "measure (\<lambda>(i, height, c). nat (height - i))") auto

definition displayRightTriangle :: "int \<Rightarrow> console \<Rightarrow> console" where
  "displayRightTriangle height c = right_rows 0 height c"

function inverted_row :: "int \<Rightarrow> int \<Rightarrow> console \<Rightarrow> console" where
  "inverted_row j i c = (if j > i then inverted_row (j - 1) i (cout (Txt ''*'') c) else c)"
  by pat_completeness auto
termination
  by (relation "measure (\<lambda>(j, i, c). nat (j - i))") auto

function inverted_rows :: "int \<Rightarrow> int \<Rightarrow> console \<Rightarrow> console" where
  "inverted_rows i height c =
     (if i < height
      then inverted_rows (i + 1) height (cout (Txt [newline]) (inverted_row height i c))
      else c)"
  by pat_completeness auto
termination
  by (relation "measure (\<lambda>(i, height, c). nat (height - i))") auto

definition displayInvertedTriangle :: "int \<Rightarrow> console \<Rightarrow> console" where
  "displayInvertedTriangle height c = inverted_rows 0 height c"

text \<open>
  The \<^verbatim>\<open>switch\<close> of the triangle menu. What its \<^verbatim>\<open>default:\<close> label does is the
  argument \<open>dflt\<close>, so that theorems can speak about that branch.
\<close>

definition Triangle_switch :: "(console \<Rightarrow> console) \<Rightarrow> int \<Rightarrow> int \<Rightarrow> console \<Rightarrow> console" where
  "Triangle_switch dflt menuChoice height c =
     (if menuChoice = 1
      then UI_pauseBuffer (displayRightTriangle height (cout (Txt (''Right Triangle:'' @ [newline])) c))
      else if menuChoice = 2
      then UI_pauseBuffer
             (displayInvertedTriangle height (cout (Txt (''Inverted Triangle:'' @ [newline])) c))
      else if menuChoice = 3
      then UI_pauseBuffer
             (displayInvertedTriangle height
                (cout (Txt (newline # ''Inverted Triangle:'' @ [newline]))
                   (displayRightTriangle height (cout (Txt (''Right Triangle:'' @ [newline])) c))))
      else dflt c)"

definition Triangle_default :: "console \<Rightarrow> console" where
  "Triangle_default c = cout (Txt ''[ERROR] Choice must be 1-4. Try again.'') c"

definition Triangle_menu :: "console \<Rightarrow> console" where
  "Triangle_menu c =
     UI_line
       (couts [Txt (''Triangle Options:'' @ [newline]),
               Txt (''1. Right Triangle'' @ [newline]),
               Txt (''2. Inverted Triangle'' @ [newline]),
               Txt (''3. Both'' @ [newline]),
               Txt (''4. Exit'' @ [newline])] c)"

definition Triangle_body :: "(console \<Rightarrow> console) \<Rightarrow> console \<Rightarrow> flow option" where
  "Triangle_body dflt c =
     (case getValidatedChoice ''Enter choice (1-4): '' 1 4 (Triangle_menu c) of
        None \<Rightarrow> None
      | Some (menuChoice, c1) \<Rightarrow>
          if menuChoice = 4
          then Some (Break
                 (UI_goodbyeMessage (''Successfully Navigated to Main Menu'' @ [newline, newline])
                    (UI_goodbyeMessage (''Exiting Triangle Activity...'' @ [newline]) c1)))
          else (case getValidatedChoice ''Enter height (1-20): '' 1 20 c1 of
                  None \<Rightarrow> None
                | Some (height, c2) \<Rightarrow>
                    Some (Next
                      (cout (Txt [newline])
                         (Triangle_switch dflt menuChoice height (cout (Txt [newline]) c2))))))"

definition Triangle_loop :: "console \<Rightarrow> console option" where
  "Triangle_loop c = forever (Triangle_body Triangle_default) c"

definition TriangleLoopActivity_run :: "console \<Rightarrow> console option" where
  "TriangleLoopActivity_run c = Triangle_loop (UI_header ''Triangle Loop Activity'' c)"

section \<open>CurrencyExchangeCalculator\<close>

definition USD_RATE :: real where
  "USD_RATE = 58.2554"

definition EUR_RATE :: real where
  "EUR_RATE = 67.6375"

definition JPY_RATE :: real where
  "JPY_RATE = 0.3818"

definition AUD_RATE :: real where
  "AUD_RATE = 38.3071"

definition TRANSACTION_FEE_RATE :: real where
  "TRANSACTION_FEE_RATE = 0.05"

text \<open>The currency signs of the source's string literals, as their UTF-8 bytes.\<close>

definition peso :: string where
  "peso = [CHR 0xE2, CHR 0x82, CHR 0xB1]"

definition euro :: string where
  "euro = [CHR 0xE2, CHR 0x82, CHR 0xAC]"

definition yen :: string where
  "yen = [CHR 0xC2, CHR 0xA5]"

definition displayRates :: "console \<Rightarrow> console" where
  "displayRates c =
     UI_line
       (couts [SetPrecision 0, Txt ''Transaction Fee'', Txt '': '',
               DblO (TRANSACTION_FEE_RATE * 100), Txt (''%'' @ [newline]),
               Txt ''Minimum Transaction'', Txt ('': '' @ peso @ ''100'' @ [newline]),
               Txt ''Maximum Transaction'', Txt ('': '' @ peso @ ''100,000'' @ [newline])]
         (UI_line
           (couts [Fixed, SetPrecision 4,
                   Txt ''USD ($)   : 1 PHP = '', DblO (1.0 / USD_RATE), Txt ('' USD'' @ [newline]),
                   Txt (''EUR ('' @ euro @ '')   : 1 PHP = ''), DblO (1.0 / EUR_RATE),
                   Txt ('' EUR'' @ [newline]),
                   Txt (''JPY ('' @ yen @ '')   : 1 PHP = ''), DblO (1.0 / JPY_RATE),
                   Txt ('' JPY'' @ [newline]),
                   Txt ''AUD (A$)  : 1 PHP = '', DblO (1.0 / AUD_RATE), Txt ('' AUD'' @ [newline])]
             (UI_line (UI_header ''Today's Exchange Rates'' c)))))"

definition label_w :: nat where
  "label_w = 14"

definition rate_w :: nat where
  "rate_w = 14"

definition val_w :: nat where
  "val_w = 12"

definition displayConversion ::
  "real \<Rightarrow> real \<Rightarrow> real \<Rightarrow> real \<Rightarrow> real \<Rightarrow> real \<Rightarrow> real \<Rightarrow> console \<Rightarrow> console" where
  "displayConversion amountInPHP fee netPHP usd eur jpy aud c =
     couts [AdjLeft, SetW label_w, Txt ''Currency'',
            AdjLeft, SetW rate_w, Txt (''Rate (PHP per '' @ peso @ ''1)''),
            AdjRight, SetW val_w, Txt ''Converted'', Txt [newline],
            AdjLeft, SetW label_w, Txt ''USD ($)       '',
            AdjLeft, SetW rate_w, DblO USD_RATE, Txt ''     '', DblO usd, Txt ('' USD'' @ [newline]),
            AdjLeft, SetW label_w, Txt (''EUR ('' @ euro @ '')       ''),
            AdjLeft, SetW rate_w, DblO EUR_RATE, Txt ''     '', DblO eur, Txt ('' EUR'' @ [newline]),
            AdjLeft, SetW label_w, Txt (''JPY ('' @ yen @ '')       ''),
            AdjLeft, SetW rate_w, DblO JPY_RATE, Txt ''     '', DblO jpy, Txt ('' JPY'' @ [newline]),
            AdjLeft, SetW label_w, Txt ''AUD (A$)      '',
            AdjLeft, SetW rate_w, DblO AUD_RATE, Txt ''     '', DblO aud, Txt ('' AUD'' @ [newline])]
       (UI_line
         (couts [Fixed, SetPrecision 2,
                 SetW 18, AdjLeft, Txt ''Original Amount'', Txt ('': '' @ peso), DblO amountInPHP,
                 Txt [newline],
                 SetW 18, AdjLeft, Txt ''Transaction Fee'', Txt ('': '' @ peso), DblO fee,
                 Txt [newline],
                 SetW 18, AdjLeft, Txt ''Net Amount'', Txt ('': '' @ peso), DblO netPHP,
                 Txt [newline]]
           (UI_line (UI_header ''Conversion Result'' c))))"

definition convertCurrency :: "console \<Rightarrow> console option" where
  "convertCurrency c =
     (case getValidatedDouble (''Enter amount in PHP ('' @ peso @ ''): '') 100 100000 c of
        None \<Rightarrow> None
      | Some (amountInPHP, c1) \<Rightarrow>
          (case getValidatedYesNo ''Would you like to proceed?''
                  (cout (Txt (''A 5% transaction fee will be charged for the exchange.'' @ [newline]))
                     c1) of
             None \<Rightarrow> None
           | Some (proceed, c2) \<Rightarrow>
               if \<not> proceed
               then Some (UI_goodbyeMessage (''Transaction cancelled.'' @ [newline]) c2)
               else (let fee = amountInPHP * TRANSACTION_FEE_RATE;
                         netPHP = amountInPHP - fee;
                         usd = netPHP / USD_RATE;
                         eur = netPHP / EUR_RATE;
                         jpy = netPHP / JPY_RATE;
                         aud = netPHP / AUD_RATE
                     in Some (displayConversion amountInPHP fee netPHP usd eur jpy aud c2))))"

definition Currency_default :: "console \<Rightarrow> console" where
  "Currency_default c = cout (Txt (''[ERROR] Choice must be 1-3. Try again.'' @ [newline])) c"

definition Currency_menu :: "console \<Rightarrow> console" where
  "Currency_menu c =
     UI_line
       (couts [Txt (''Currency Exchange Options:'' @ [newline]),
               Txt (''1. Exchange Currency'' @ [newline]),
               Txt (''2. View Rates'' @ [newline]),
               Txt (''3. Exit'' @ [newline])]
          (UI_header ''Currency Exchange Calculator'' c))"

text \<open>The loop body of the currency menu; \<open>dflt\<close> is its \<^verbatim>\<open>default:\<close> branch.\<close>

definition Currency_body :: "(console \<Rightarrow> console) \<Rightarrow> console \<Rightarrow> flow option" where
  "Currency_body dflt c =
     (case getValidatedChoice ''Enter choice (1-3): '' 1 3 (Currency_menu c) of
        None \<Rightarrow> None
      | Some (menuChoice, c1) \<Rightarrow>
          if menuChoice = 3
          then Some (Break
                 (UI_goodbyeMessage (''Successfully Navigated to Main Menu'' @ [newline, newline])
                    (UI_goodbyeMessage (''Exiting Currency Exchange Calculator...'' @ [newline]) c1)))
          else if menuChoice = 1
          then (case convertCurrency c1 of
                  None \<Rightarrow> None
                | Some c2 \<Rightarrow> Some (Next (UI_pauseBuffer c2)))
          else if menuChoice = 2
          then Some (Next (UI_pauseBuffer (displayRates c1)))
          else Some (Next (dflt c1)))"

definition CurrencyExchangeCalculator_run :: "console \<Rightarrow> console option" where
  "CurrencyExchangeCalculator_run c = forever (Currency_body Currency_default) c"

section \<open>Program\<close>

definition menuItems :: "string list" where
  "menuItems =
     [''Virtual Student Info'',
      ''Student Grade Evaluator'',
      ''Triangle Loop Activity'',
      ''Currency Exchange Calculator'',
      ''Exit Program'']"

fun to_string :: "nat \<Rightarrow> string" where
  "to_string n =
     (if n < 10 then [''0123456789'' ! n] else to_string (n div 10) @ [''0123456789'' ! (n mod 10)])"

declare to_string.simps [simp del]

text \<open>The loop that prints the menu entries from index \<open>i\<close> on.\<close>

fun show_items :: "nat \<Rightarrow> string list \<Rightarrow> console \<Rightarrow> console" where
  "show_items i [] c = c"
| "show_items i (item # items) c =
     show_items (i + 1) items
       (couts [Txt ''['', IntO (int (i + 1)), Txt ''] '', Txt item, Txt [newline]] c)"

definition Program_default :: "console \<Rightarrow> console" where
  "Program_default c = cout (Txt (''[ERROR] Choice must be 1-5. Try again.'' @ [newline])) c"

definition Program_menu :: "console \<Rightarrow> console" where
  "Program_menu c =
     UI_line
       (show_items 0 menuItems
          (UI_line
            (cout (Txt (''>>> ===== PROGRAMMING ACTIVITY MENU ===== <<<'' @ [newline]))
               (UI_line c))))"

text \<open>The loop body of the main menu; \<open>dflt\<close> is its \<^verbatim>\<open>default:\<close> branch.\<close>

definition Program_body :: "(console \<Rightarrow> console) \<Rightarrow> console \<Rightarrow> flow option" where
  "Program_body dflt c =
     (case getValidatedChoice (''Enter choice (1-'' @ to_string (length menuItems) @ ''): '')
             1 (int (length menuItems)) (Program_menu c) of
        None \<Rightarrow> None
      | Some (menuChoice, c1) \<Rightarrow>
          if menuChoice = 1 then Some (Next (VirtualStudentInfo_run c1))
          else if menuChoice = 2 then map_option Next (StudentGradeEvaluator_run c1)
          else if menuChoice = 3 then map_option Next (TriangleLoopActivity_run c1)
          else if menuChoice = 4 then map_option Next (CurrencyExchangeCalculator_run c1)
          else if menuChoice = 5
          then Some (Break (UI_goodbyeMessage (''Exiting program... Goodbye!'' @ [newline]) c1))
          else Some (Next (dflt c1)))"

definition Program_loop :: "console \<Rightarrow> console option" where
  "Program_loop c = forever (Program_body Program_default) c"

definition Program_run :: "console \<Rightarrow> console option" where
  "Program_run c =
     Program_loop
       (couts [Txt [newline], Txt (replicate 45 CHR ''*''), Txt [newline],
               Txt (''   WELCOME TO PROGRAMMING ACTIVITY SYSTEM'' @ [newline]),
               Txt (replicate 45 CHR ''*''), Txt [newline]] c)"

section \<open>Notions used in the statements\<close>



text \<open>
  What a step printed: the items appended to the output. The text of the items (numbers
  and manipulators carry none) and its lines, each ended by a new line; an unfinished
  last line counts when it is not empty.
\<close>

definition printed :: "console \<Rightarrow> console \<Rightarrow> out_item list" where
  "printed c c' = drop (length (out c)) (out c')"

fun text_of :: "out_item list \<Rightarrow> string" where
  "text_of [] = []"
| "text_of (Txt s # xs) = s @ text_of xs"
| "text_of (x # xs) = text_of xs"

fun split_lines :: "string \<Rightarrow> string \<Rightarrow> string list" where
  "split_lines cur [] = (if cur = [] then [] else [cur])"
| "split_lines cur (ch # s) =
     (if ch = newline then cur # split_lines [] s else split_lines (cur @ [ch]) s)"

definition lines_of :: "string \<Rightarrow> string list" where
  "lines_of s = split_lines [] s"

text \<open>One row of a triangle: \<open>n\<close> stars, each printed on its own, and the new line.\<close>

definition row_items :: "nat \<Rightarrow> out_item list" where
  "row_items n = replicate n (Txt ''*'') @ [Txt [newline]]"

text \<open>The input that is left when the rest of the current line, new line included, is dropped.\<close>

definition drop_line :: "string \<Rightarrow> string" where
  "drop_line s = (case dropWhile (\<lambda>ch. ch \<noteq> newline) s of [] \<Rightarrow> [] | r # rs \<Rightarrow> rs)"

text \<open>The prompt of the pause, and the lines of the two triangles.\<close>

definition press_enter :: out_item where
  "press_enter = Txt (newline # ''>>> Press Enter to continue...'')"

definition right_lines :: "int \<Rightarrow> string list" where
  "right_lines height = map (\<lambda>k. replicate (nat (k + 1)) CHR ''*'') [0..height - 1]"

definition inverted_lines :: "int \<Rightarrow> string list" where
  "inverted_lines height = map (\<lambda>k. replicate (nat (height - k)) CHR ''*'') [0..height - 1]"



text \<open>An extraction that, on exhausted input, stores nothing and leaves the input exhausted.\<close>

definition fails_at_end :: "(console \<Rightarrow> 'a option \<times> console) \<Rightarrow> bool" where
  "fails_at_end rd = (\<forall>c. inp c = [] \<longrightarrow> fst (rd c) = None \<and> failbit (snd (rd c)) \<and> inp (snd (rd c)) = [])"

section \<open>Evaluation on concrete consoles\<close>

lemmas console_simps =
  header_items_def UI_header_def line_items_def UI_line_def cout_def couts_def good_def clear_def sentry_def ignore_line_def get_def scanned_def
  isspace_def isdigit_def digit_val_def dec_def newline_def take_sign_def take_frac_def
  take_exp_def INT_MAX_def INT_MIN_def DBL_OVERFLOW_def extract_int_def extract_double_def
  extract_string_def invalid_input_def choice_error_def value_error_def yes_no_error_def
  tolower_def

section \<open>The extractions and the validated reader\<close>

text \<open>
  An extraction stores a value exactly when it leaves \<^verbatim>\<open>failbit\<close> clear, so the test
  \<^verbatim>\<open>cin.fail()\<close> of the reader separates the rounds that have a value from those
  that have none.
\<close>

lemma extract_int_failbit: "extract_int c = (r, c1) \<Longrightarrow> failbit c1 \<longleftrightarrow> r = None"
  by (auto simp: extract_int_def sentry_def scanned_def Let_def split: if_splits list.splits prod.splits)






lemma getValidated_accept:
  assumes "extract (cout (Txt prompt) c) = (Some v, c1)" and "\<not> failbit c1"
  shows "getValidated extract prompt c = Some (v, c1)"
  using assms by (subst getValidated.simps) simp

lemma choice_range:
  assumes "getValidatedChoice prompt mn mx c = Some r"
  shows "mn \<le> fst r \<and> fst r \<le> mx"
  by (rule getValidatedChoice.raw_induct
        [where P = "\<lambda>p lo hi c r. lo \<le> fst r \<and> fst r \<le> hi", OF _ assms])
     (auto split: option.splits if_splits prod.splits)





lemma choice_accept:
  assumes "extract_int (cout (Txt prompt) c) = (Some v, c1)" and "mn \<le> v" and "v \<le> mx"
  shows "getValidatedChoice prompt mn mx c = Some (v, c1)"
proof -
  have "\<not> failbit c1" using extract_int_failbit [OF assms(1)] by simp
  from getValidated_accept [of extract_int, OF assms(1) this] assms(2,3) show ?thesis
    by (simp add: getValidatedChoice.simps [of prompt mn mx c])
qed




section \<open>Range-checked readers\<close>





section \<open>What a numeric read accepts\<close>

lemma sentry_skip:
  assumes "good c" and "\<forall>ch\<in>set ws. isspace ch" and "inp c = ws @ rest"
  shows "sentry c = sentry (c\<lparr>inp := rest\<rparr>)"
proof -
  have e: "dropWhile isspace (inp c) = dropWhile isspace rest"
    using assms(2,3) by (simp add: dropWhile_append2)
  show ?thesis
    using assms(1) by (simp add: sentry_def good_def e cong: list.case_cong)
qed

lemma cout_inp_update: "cout x (c\<lparr>inp := s\<rparr>) = (cout x c)\<lparr>inp := s\<rparr>"
  by (simp add: cout_def)

lemma getValidated_skip:
  assumes "rd (cout (Txt prompt) c) = rd (cout (Txt prompt) d)"
  shows "getValidated rd prompt c = getValidated rd prompt d"
  by (simp add: getValidated.simps [of rd prompt c] getValidated.simps [of rd prompt d] assms)

lemma extract_int_skip:
  assumes "good c" and "\<forall>ch\<in>set ws. isspace ch" and "inp c = ws @ rest"
  shows "extract_int (cout x c) = extract_int (cout x (c\<lparr>inp := rest\<rparr>))"
proof -
  have "sentry (cout x c) = sentry ((cout x c)\<lparr>inp := rest\<rparr>)"
    using assms by (intro sentry_skip [of _ ws]) (simp_all add: cout_def good_def)
  then show ?thesis by (simp add: extract_int_def cout_inp_update)
qed

lemma extract_double_skip:
  assumes "good c" and "\<forall>ch\<in>set ws. isspace ch" and "inp c = ws @ rest"
  shows "extract_double (cout x c) = extract_double (cout x (c\<lparr>inp := rest\<rparr>))"
proof -
  have "sentry (cout x c) = sentry ((cout x c)\<lparr>inp := rest\<rparr>)"
    using assms by (intro sentry_skip [of _ ws]) (simp_all add: cout_def good_def)
  then show ?thesis by (simp add: extract_double_def cout_inp_update)
qed

lemma sentry_ready:
  assumes "good c" and "inp c = g # rest" and "\<not> isspace g"
  shows "sentry c = (True, c)"
  using assms by (simp add: sentry_def)

lemma isdigit_not_space: "isdigit ch \<Longrightarrow> \<not> isspace ch"
  by (auto simp: isdigit_def isspace_def)

lemma isdigit_not_sign: "isdigit ch \<Longrightarrow> ch \<noteq> CHR ''-'' \<and> ch \<noteq> CHR ''+'' \<and> ch \<noteq> CHR ''.''"
  by (auto simp: isdigit_def)

lemma good_flags: "good c \<Longrightarrow> c\<lparr>inp := s, failbit := False, eofbit := False\<rparr> = c\<lparr>inp := s\<rparr>"
  by (simp add: good_def)

lemma extract_int_numeral:
  assumes "good c" and "ds \<noteq> []" and "\<forall>ch\<in>set ds. isdigit ch" and "\<not> isdigit g"
    and "int (dec ds) \<le> INT_MAX" and "inp c = ds @ g # rest"
  shows "extract_int c = (Some (int (dec ds)), c\<lparr>inp := g # rest\<rparr>)"
proof -
  obtain d ds' where ds: "ds = d # ds'" using assms(2) by (cases ds) auto
  have d: "isdigit d" using assms(3) ds by simp
  have s: "sentry c = (True, c)"
    using assms(1,6) ds isdigit_not_space [OF d] by (intro sentry_ready [of c d "ds' @ g # rest"]) simp_all
  have t: "take_sign (ds @ g # rest) = (False, ds @ g # rest)"
    using ds isdigit_not_sign [OF d] by (simp add: take_sign_def)
  have tw: "takeWhile isdigit (ds @ g # rest) = ds"
    using assms(3,4) by (simp add: takeWhile_append2)
  have dw: "dropWhile isdigit (ds @ g # rest) = g # rest"
    using assms(3,4) by (simp add: dropWhile_append2)
  have "INT_MIN \<le> int (dec ds)" by (simp add: INT_MIN_def)
  then show ?thesis
    using assms(1,2,4,5,6) by (simp add: extract_int_def s t tw dw scanned_def good_flags)
qed


lemma int_below_overflow: "int n \<le> INT_MAX \<Longrightarrow> real n < DBL_OVERFLOW"
proof -
  assume "int n \<le> INT_MAX"
  then have "real n \<le> 2147483647" by (simp add: INT_MAX_def)
  moreover have "(2147483647::real) < DBL_OVERFLOW" by (simp add: DBL_OVERFLOW_def)
  ultimately show ?thesis by linarith
qed

lemma extract_double_numeral:
  assumes "good c" and "ds \<noteq> []" and "\<forall>ch\<in>set ds. isdigit ch" and "\<not> isdigit g"
    and "g \<notin> set ''.eE''" and "real (dec ds) < DBL_OVERFLOW" and "inp c = ds @ g # rest"
  shows "extract_double c = (Some (real (dec ds)), c\<lparr>inp := g # rest\<rparr>)"
proof -
  obtain d ds' where ds: "ds = d # ds'" using assms(2) by (cases ds) auto
  have d: "isdigit d" using assms(3) ds by simp
  have s: "sentry c = (True, c)"
    using assms(1,7) ds isdigit_not_space [OF d] by (intro sentry_ready [of c d "ds' @ g # rest"]) simp_all
  have t: "take_sign (ds @ g # rest) = (False, ds @ g # rest)"
    using ds isdigit_not_sign [OF d] by (simp add: take_sign_def)
  have tw: "takeWhile isdigit (ds @ g # rest) = ds"
    using assms(3,4) by (simp add: takeWhile_append2)
  have dw: "dropWhile isdigit (ds @ g # rest) = g # rest"
    using assms(3,4) by (simp add: dropWhile_append2)
  have f: "take_frac (g # rest) = (False, [], g # rest)"
    using assms(5) by (simp add: take_frac_def)
  have e: "take_exp True (g # rest) = (False, False, [], g # rest)"
    using assms(5) by (simp add: take_exp_def)
  show ?thesis
    using assms(1,2,6,7) by (simp add: extract_double_def s t tw dw f e scanned_def good_flags dec_def)
qed

lemma good_failed: "good c \<Longrightarrow> c\<lparr>inp := inp c, failbit := True, eofbit := False\<rparr> = c\<lparr>failbit := True\<rparr>"
  by (simp add: good_def)

lemma extract_int_garbage:
  assumes "good c" and "inp c = g # rest" and "\<not> isspace g" and "\<not> isdigit g" and "g \<notin> set ''+-''"
  shows "extract_int c = (None, c\<lparr>failbit := True\<rparr>)"
proof -
  have s: "sentry c = (True, c)" using assms(1,2,3) by (rule sentry_ready)
  have t: "take_sign (g # rest) = (False, g # rest)"
    using assms(5) by (simp add: take_sign_def)
  show ?thesis
    using assms(1,2,4) good_failed [OF assms(1)] by (simp add: extract_int_def s t scanned_def)
qed

lemma extract_double_garbage:
  assumes "good c" and "inp c = g # rest" and "\<not> isspace g" and "\<not> isdigit g" and "g \<notin> set ''+-.''"
  shows "extract_double c = (None, c\<lparr>failbit := True\<rparr>)"
proof -
  have s: "sentry c = (True, c)" using assms(1,2,3) by (rule sentry_ready)
  have t: "take_sign (g # rest) = (False, g # rest)"
    using assms(5) by (simp add: take_sign_def)
  have f: "take_frac (g # rest) = (False, [], g # rest)"
    using assms(5) by (simp add: take_frac_def)
  have e: "take_exp False (g # rest) = (False, False, [], g # rest)"
    by (simp add: take_exp_def)
  show ?thesis
    using assms(1,2,4) good_failed [OF assms(1)] by (simp add: extract_double_def s t f e scanned_def)
qed

lemma getValidated_garbage:
  assumes "good c" and "rd (cout (Txt prompt) c) = (None, (cout (Txt prompt) c)\<lparr>failbit := True\<rparr>)"
  shows "getValidated rd prompt c
         = getValidated rd prompt (ignore_line (couts [Txt prompt, invalid_input] c))"
proof -
  have "clear (cout invalid_input ((cout (Txt prompt) c)\<lparr>failbit := True\<rparr>))
        = couts [Txt prompt, invalid_input] c"
    using assms(1) by (simp add: clear_def cout_def couts_def good_def)
  then show ?thesis
    using assms(2) by (subst getValidated.simps) simp
qed

lemma good_cout: "good (cout x c) = good c"
  by (simp add: good_def cout_def)

lemma inp_cout: "inp (cout x c) = inp c"
  by (simp add: cout_def)


text \<open>
  C2, as the code has it. On a good stream a numeric read of \<^verbatim>\<open>getValidated\<close> skips
  leading white space, empty and blank lines included, and prints nothing for it. When
  the first character after the white space cannot begin a number, the read prints the
  invalid-input message, drops the rest of that line and reads again. When the input
  begins with digits followed by another character (as in \<^verbatim>\<open>12abc\<close>), the read
  returns the value of the digits and leaves the other characters unread.
\<close>

theorem getValidated_numeric_read:
  "(\<forall>c ws rest. good c \<and> (\<forall>ch\<in>set ws. isspace ch) \<and> inp c = ws @ rest \<longrightarrow>
       getValidated extract_int prompt c = getValidated extract_int prompt (c\<lparr>inp := rest\<rparr>)
     \<and> getValidated extract_double prompt c = getValidated extract_double prompt (c\<lparr>inp := rest\<rparr>))
   \<and> (\<forall>c g rest. good c \<and> inp c = g # rest \<and> \<not> isspace g \<and> \<not> isdigit g \<and> g \<notin> set ''+-.'' \<longrightarrow>
       getValidated extract_int prompt c
       = getValidated extract_int prompt (ignore_line (couts [Txt prompt, invalid_input] c))
     \<and> getValidated extract_double prompt c
       = getValidated extract_double prompt (ignore_line (couts [Txt prompt, invalid_input] c)))
   \<and> (\<forall>c ds g rest. good c \<and> ds \<noteq> [] \<and> (\<forall>ch\<in>set ds. isdigit ch) \<and> \<not> isdigit g
         \<and> g \<notin> set ''.eE'' \<and> int (dec ds) \<le> INT_MAX \<and> inp c = ds @ g # rest \<longrightarrow>
       getValidated extract_int prompt c
       = Some (int (dec ds), (cout (Txt prompt) c)\<lparr>inp := g # rest\<rparr>)
     \<and> getValidated extract_double prompt c
       = Some (real (dec ds), (cout (Txt prompt) c)\<lparr>inp := g # rest\<rparr>))"
proof (intro conjI allI impI; elim conjE)
  fix c ws rest
  assume h: "good c" "\<forall>ch\<in>set ws. isspace ch" "inp c = ws @ rest"
  show "getValidated extract_int prompt c = getValidated extract_int prompt (c\<lparr>inp := rest\<rparr>)"
    by (rule getValidated_skip) (rule extract_int_skip [OF h])
  show "getValidated extract_double prompt c = getValidated extract_double prompt (c\<lparr>inp := rest\<rparr>)"
    by (rule getValidated_skip) (rule extract_double_skip [OF h])
next
  fix c g rest
  assume h: "good c" "inp c = g # rest" "\<not> isspace g" "\<not> isdigit g" "g \<notin> set ''+-.''"
  let ?c = "cout (Txt prompt) c"
  have g: "good ?c" and i: "inp ?c = g # rest"
    using h(1,2) by (simp_all add: good_cout inp_cout)
  have "extract_int ?c = (None, ?c\<lparr>failbit := True\<rparr>)"
    using g i h(3,4) by (rule extract_int_garbage) (use h(5) in simp)
  then show "getValidated extract_int prompt c
       = getValidated extract_int prompt (ignore_line (couts [Txt prompt, invalid_input] c))"
    by (rule getValidated_garbage [OF h(1)])
  have "extract_double ?c = (None, ?c\<lparr>failbit := True\<rparr>)"
    using g i h(3,4,5) by (rule extract_double_garbage)
  then show "getValidated extract_double prompt c
       = getValidated extract_double prompt (ignore_line (couts [Txt prompt, invalid_input] c))"
    by (rule getValidated_garbage [OF h(1)])
next
  fix c ds g rest
  assume h: "good c" "ds \<noteq> []" "\<forall>ch\<in>set ds. isdigit ch" "\<not> isdigit g" "g \<notin> set ''.eE''"
    "int (dec ds) \<le> INT_MAX" "inp c = ds @ g # rest"
  let ?c = "cout (Txt prompt) c"
  have g: "good ?c" and i: "inp ?c = ds @ g # rest"
    using h(1,7) by (simp_all add: good_cout inp_cout)
  have n: "\<not> failbit (?c\<lparr>inp := g # rest\<rparr>)"
    using h(1) by (simp add: good_def cout_def)
  have "extract_int ?c = (Some (int (dec ds)), ?c\<lparr>inp := g # rest\<rparr>)"
    using g h(2,3,4,6) i by (rule extract_int_numeral)
  then show "getValidated extract_int prompt c
       = Some (int (dec ds), (cout (Txt prompt) c)\<lparr>inp := g # rest\<rparr>)"
    using n by (rule getValidated_accept)
  have "extract_double ?c = (Some (real (dec ds)), ?c\<lparr>inp := g # rest\<rparr>)"
    using g h(2,3,4,5) int_below_overflow [OF h(6)] i by (rule extract_double_numeral)
  then show "getValidated extract_double prompt c
       = Some (real (dec ds), (cout (Txt prompt) c)\<lparr>inp := g # rest\<rparr>)"
    using n by (rule getValidated_accept)
qed

text \<open>
  C2, as it is stated, fails: \<^verbatim>\<open>12abc\<close> is read as 12 with no message, and the
  characters \<^verbatim>\<open>abc\<close> stay in the stream; an empty line and a blank line before a
  number are passed over with no message.
\<close>

theorem getValidated_trailing_garbage_counterexample:
  "getValidated extract_int ''? ''
     \<lparr>inp = ''12abc\<newline>'', failbit = False, eofbit = False, out = []\<rparr>
   = Some (12, \<lparr>inp = ''abc\<newline>'', failbit = False, eofbit = False, out = [Txt ''? '']\<rparr>)
   \<and> getValidated extract_int ''? ''
     \<lparr>inp = ''\<newline>  \<newline>7\<newline>'', failbit = False, eofbit = False, out = []\<rparr>
   = Some (7, \<lparr>inp = ''\<newline>'', failbit = False, eofbit = False, out = [Txt ''? '']\<rparr>)
   \<and> invalid_input \<notin> set [Txt ''? '']"
  by (simp add: getValidated.simps console_simps)

theorem getValidated_numeric_read_witness:
  "getValidated extract_int ''? ''
     \<lparr>inp = ''\<newline>  \<newline>7\<newline>'', failbit = False, eofbit = False, out = []\<rparr>
   = getValidated extract_int ''? ''
     \<lparr>inp = ''7\<newline>'', failbit = False, eofbit = False, out = []\<rparr>
   \<and> getValidated extract_double ''? ''
     \<lparr>inp = ''x12\<newline>7\<newline>'', failbit = False, eofbit = False, out = []\<rparr>
   = getValidated extract_double ''? ''
     \<lparr>inp = ''7\<newline>'', failbit = False, eofbit = False, out = [Txt ''? '', invalid_input]\<rparr>
   \<and> getValidated extract_int ''? ''
     \<lparr>inp = ''12abc\<newline>'', failbit = False, eofbit = False, out = []\<rparr>
   = Some (12, \<lparr>inp = ''abc\<newline>'', failbit = False, eofbit = False, out = [Txt ''? '']\<rparr>)
   \<and> getValidated extract_double ''? ''
     \<lparr>inp = ''12abc\<newline>'', failbit = False, eofbit = False, out = []\<rparr>
   = Some (12, \<lparr>inp = ''abc\<newline>'', failbit = False, eofbit = False, out = [Txt ''? '']\<rparr>)"
proof -
  note T = getValidated_numeric_read [of "''? ''"]
  let ?c = "\<lambda>s. \<lparr>inp = s, failbit = False, eofbit = False, out = []\<rparr>"
  have a: "getValidated extract_int ''? '' (?c ''\<newline>  \<newline>7\<newline>'')
           = getValidated extract_int ''? '' (?c ''7\<newline>'')"
    using T [THEN conjunct1, rule_format, of "?c ''\<newline>  \<newline>7\<newline>''" "''\<newline>  \<newline>''" "''7\<newline>''"]
    by (simp add: good_def isspace_def)
  have b: "getValidated extract_double ''? '' (?c ''x12\<newline>7\<newline>'')
           = getValidated extract_double ''? ''
               \<lparr>inp = ''7\<newline>'', failbit = False, eofbit = False, out = [Txt ''? '', invalid_input]\<rparr>"
    using T [THEN conjunct2, THEN conjunct1, rule_format, of "?c ''x12\<newline>7\<newline>''" "CHR ''x''" "''12\<newline>7\<newline>''"]
    by (simp add: good_def isspace_def isdigit_def ignore_line_def couts_def newline_def)
  have c: "getValidated extract_int ''? '' (?c ''12abc\<newline>'')
             = Some (12, \<lparr>inp = ''abc\<newline>'', failbit = False, eofbit = False, out = [Txt ''? '']\<rparr>)
           \<and> getValidated extract_double ''? '' (?c ''12abc\<newline>'')
             = Some (12, \<lparr>inp = ''abc\<newline>'', failbit = False, eofbit = False, out = [Txt ''? '']\<rparr>)"
    using T [THEN conjunct2, THEN conjunct2, rule_format, of "?c ''12abc\<newline>''" "''12''" "CHR ''a''" "''bc\<newline>''"]
    by (simp add: good_def isdigit_def dec_def digit_val_def INT_MAX_def cout_def)
  from a b c show ?thesis by simp
qed

section \<open>The yes/no reader\<close>









section \<open>The triangles\<close>

declare right_row.simps [simp del] right_rows.simps [simp del]
  inverted_row.simps [simp del] inverted_rows.simps [simp del]

lemma right_row_couts:
  "right_row j i c = couts (replicate (nat (i + 1 - j)) (Txt ''*'')) c"
proof (induction j i c rule: right_row.induct)
  case (1 j i c)
  show ?case
  proof (cases "j \<le> i")
    case True
    then have n: "nat (i + 1 - j) = Suc (nat (i + 1 - (j + 1)))" by simp
    have "right_row j i c = right_row (j + 1) i (cout (Txt ''*'') c)"
      using True by (simp add: right_row.simps [of j i c])
    also have "\<dots> = couts (replicate (nat (i + 1 - (j + 1))) (Txt ''*'')) (cout (Txt ''*'') c)"
      using True by (rule 1)
    also have "\<dots> = couts (replicate (nat (i + 1 - j)) (Txt ''*'')) c"
      unfolding n by (simp add: couts_def cout_def)
    finally show ?thesis .
  next
    case False
    then show ?thesis by (simp add: couts_def right_row.simps [of j i c])
  qed
qed

lemma inverted_row_couts:
  "inverted_row j i c = couts (replicate (nat (j - i)) (Txt ''*'')) c"
proof (induction j i c rule: inverted_row.induct)
  case (1 j i c)
  show ?case
  proof (cases "j > i")
    case True
    then have n: "nat (j - i) = Suc (nat (j - 1 - i))" by simp
    have "inverted_row j i c = inverted_row (j - 1) i (cout (Txt ''*'') c)"
      using True by (simp add: inverted_row.simps [of j i c])
    also have "\<dots> = couts (replicate (nat (j - 1 - i)) (Txt ''*'')) (cout (Txt ''*'') c)"
      using True by (rule 1)
    also have "\<dots> = couts (replicate (nat (j - i)) (Txt ''*'')) c"
      unfolding n by (simp add: couts_def cout_def)
    finally show ?thesis .
  next
    case False
    then show ?thesis by (simp add: couts_def inverted_row.simps [of j i c])
  qed
qed

lemma couts_couts: "couts ys (couts xs c) = couts (xs @ ys) c"
  by (simp add: couts_def)

lemma cout_couts: "cout y (couts xs c) = couts (xs @ [y]) c"
  by (simp add: couts_def cout_def)

lemma right_rows_couts:
  "right_rows i height c = couts (concat (map (\<lambda>k. row_items (nat (k + 1))) [i..height - 1])) c"
proof (induction i height c rule: right_rows.induct)
  case (1 i height c)
  show ?case
  proof (cases "i < height")
    case True
    then have u: "[i..height - 1] = i # [i + 1..height - 1]"
      by (simp add: upto_rec1)
    have "right_rows i height c = right_rows (i + 1) height (cout (Txt [newline]) (right_row 0 i c))"
      using True by (simp add: right_rows.simps [of i height c])
    also have "\<dots> = couts (concat (map (\<lambda>k. row_items (nat (k + 1))) [i + 1..height - 1]))
                         (cout (Txt [newline]) (right_row 0 i c))"
      using True by (rule 1)
    also have "\<dots> = couts (concat (map (\<lambda>k. row_items (nat (k + 1))) [i..height - 1])) c"
      unfolding u by (simp add: right_row_couts cout_couts couts_couts row_items_def)
    finally show ?thesis .
  next
    case False
    then show ?thesis by (simp add: couts_def right_rows.simps [of i height c])
  qed
qed

lemma inverted_rows_couts:
  "inverted_rows i height c
   = couts (concat (map (\<lambda>k. row_items (nat (height - k))) [i..height - 1])) c"
proof (induction i height c rule: inverted_rows.induct)
  case (1 i height c)
  show ?case
  proof (cases "i < height")
    case True
    then have u: "[i..height - 1] = i # [i + 1..height - 1]"
      by (simp add: upto_rec1)
    have "inverted_rows i height c
          = inverted_rows (i + 1) height (cout (Txt [newline]) (inverted_row height i c))"
      using True by (simp add: inverted_rows.simps [of i height c])
    also have "\<dots> = couts (concat (map (\<lambda>k. row_items (nat (height - k))) [i + 1..height - 1]))
                         (cout (Txt [newline]) (inverted_row height i c))"
      using True by (rule 1)
    also have "\<dots> = couts (concat (map (\<lambda>k. row_items (nat (height - k))) [i..height - 1])) c"
      unfolding u by (simp add: inverted_row_couts cout_couts couts_couts row_items_def)
    finally show ?thesis .
  next
    case False
    then show ?thesis by (simp add: couts_def inverted_rows.simps [of i height c])
  qed
qed

lemma printed_couts: "printed c (couts xs c) = xs"
  by (simp add: printed_def couts_def)

lemma text_of_append: "text_of (xs @ ys) = text_of xs @ text_of ys"
  by (induction xs rule: text_of.induct) simp_all

lemma text_of_stars: "text_of (replicate n (Txt ''*'')) = replicate n CHR ''*''"
  by (induction n) simp_all

lemma text_of_row: "text_of (row_items n) = replicate n CHR ''*'' @ [newline]"
  by (simp add: row_items_def text_of_append text_of_stars)

lemma text_of_rows:
  "text_of (concat (map (\<lambda>k. row_items (f k)) ks))
   = concat (map (\<lambda>k. replicate (f k) CHR ''*'' @ [newline]) ks)"
  by (induction ks) (simp_all add: text_of_append text_of_row)

lemma star_not_newline: "CHR ''*'' \<noteq> newline"
  by (simp add: newline_def)

lemma split_lines_stars:
  "split_lines cur (replicate n CHR ''*'' @ newline # s) = (cur @ replicate n CHR ''*'') # split_lines [] s"
proof (induction n arbitrary: cur)
  case 0
  show ?case by simp
next
  case (Suc n)
  have "split_lines cur (replicate (Suc n) CHR ''*'' @ newline # s)
        = split_lines (cur @ ''*'') (replicate n CHR ''*'' @ newline # s)"
    by (simp add: star_not_newline)
  also have "\<dots> = ((cur @ ''*'') @ replicate n CHR ''*'') # split_lines [] s"
    by (rule Suc.IH)
  finally show ?case by (simp add: replicate_append_same)
qed

lemma lines_of_rows:
  "lines_of (concat (map (\<lambda>k. replicate (f k) CHR ''*'' @ [newline]) ks))
   = map (\<lambda>k. replicate (f k) CHR ''*'') ks"
  unfolding lines_of_def
  by (induction ks) (simp_all add: split_lines_stars)

lemma right_lines_printed:
  "lines_of (text_of (printed c (displayRightTriangle height c)))
   = map (\<lambda>k. replicate (nat (k + 1)) CHR ''*'') [0..height - 1]"
  by (simp add: displayRightTriangle_def right_rows_couts printed_couts text_of_rows lines_of_rows)

lemma inverted_lines_printed:
  "lines_of (text_of (printed c (displayInvertedTriangle height c)))
   = map (\<lambda>k. replicate (nat (height - k)) CHR ''*'') [0..height - 1]"
  by (simp add: displayInvertedTriangle_def inverted_rows_couts printed_couts text_of_rows lines_of_rows)

text \<open>
  C6. For a height from 1 to 20, \<^verbatim>\<open>displayRightTriangle\<close> prints exactly
  \<open>height\<close> lines and line \<open>i\<close>, counted from 1, is exactly \<open>i\<close> stars;
  \<^verbatim>\<open>displayInvertedTriangle\<close> prints exactly \<open>height\<close> lines and line \<open>i\<close> is
  exactly \<open>height - i + 1\<close> stars.
\<close>

theorem triangle_lines:
  "1 \<le> height \<and> height \<le> 20 \<longrightarrow>
     (let right = lines_of (text_of (printed c (displayRightTriangle height c)));
          inverted = lines_of (text_of (printed c (displayInvertedTriangle height c)))
      in length right = nat height
         \<and> (\<forall>i. 1 \<le> i \<and> i \<le> nat height \<longrightarrow> right ! (i - 1) = replicate i CHR ''*'')
         \<and> length inverted = nat height
         \<and> (\<forall>i. 1 \<le> i \<and> i \<le> nat height \<longrightarrow>
               inverted ! (i - 1) = replicate (nat height - i + 1) CHR ''*''))"
proof (intro impI, elim conjE)
  assume h: "1 \<le> height" "height \<le> 20"
  have r: "\<And>i. 1 \<le> i \<Longrightarrow> i \<le> nat height \<Longrightarrow>
       map (\<lambda>k. replicate (nat (k + 1)) CHR ''*'') [0..height - 1] ! (i - 1) = replicate i CHR ''*''"
  proof -
    fix i :: nat assume i: "1 \<le> i" "i \<le> nat height"
    then have "[0..height - 1] ! (i - 1) = int (i - 1)"
      by (simp add: nth_upto)
    with i show "map (\<lambda>k. replicate (nat (k + 1)) CHR ''*'') [0..height - 1] ! (i - 1) = replicate i CHR ''*''"
      by (simp add: nat_add_distrib)
  qed
  have v: "\<And>i. 1 \<le> i \<Longrightarrow> i \<le> nat height \<Longrightarrow>
       map (\<lambda>k. replicate (nat (height - k)) CHR ''*'') [0..height - 1] ! (i - 1)
       = replicate (nat height - i + 1) CHR ''*''"
  proof -
    fix i :: nat assume i: "1 \<le> i" "i \<le> nat height"
    then have "[0..height - 1] ! (i - 1) = int (i - 1)"
      by (simp add: nth_upto)
    moreover have "nat (height - int (i - 1)) = nat height - i + 1"
      using i by linarith
    ultimately show "map (\<lambda>k. replicate (nat (height - k)) CHR ''*'') [0..height - 1] ! (i - 1)
       = replicate (nat height - i + 1) CHR ''*''"
      using i by simp
  qed
  show "let right = lines_of (text_of (printed c (displayRightTriangle height c)));
          inverted = lines_of (text_of (printed c (displayInvertedTriangle height c)))
      in length right = nat height
         \<and> (\<forall>i. 1 \<le> i \<and> i \<le> nat height \<longrightarrow> right ! (i - 1) = replicate i CHR ''*'')
         \<and> length inverted = nat height
         \<and> (\<forall>i. 1 \<le> i \<and> i \<le> nat height \<longrightarrow>
               inverted ! (i - 1) = replicate (nat height - i + 1) CHR ''*'')"
    unfolding Let_def right_lines_printed inverted_lines_printed
  proof (intro conjI allI impI; (elim conjE)?)
    show "length (map (\<lambda>k. replicate (nat (k + 1)) CHR ''*'') [0..height - 1]) = nat height"
      using h by simp
    show "length (map (\<lambda>k. replicate (nat (height - k)) CHR ''*'') [0..height - 1]) = nat height"
      using h by simp
  qed (rule r v; assumption)+
qed


theorem triangle_lines_witness:
  "(1::int) \<le> 3 \<and> (3::int) \<le> 20
   \<and> (let c = \<lparr>inp = [], failbit = False, eofbit = False, out = []\<rparr>;
          right = lines_of (text_of (printed c (displayRightTriangle 3 c)));
          inverted = lines_of (text_of (printed c (displayInvertedTriangle 3 c)))
      in length right = 3 \<and> right ! 0 = ''*'' \<and> right ! 1 = ''**'' \<and> right ! 2 = ''***''
         \<and> length inverted = 3 \<and> inverted ! 0 = ''***'' \<and> inverted ! 1 = ''**''
         \<and> inverted ! 2 = ''*'')"
proof -
  let ?c = "\<lparr>inp = [], failbit = False, eofbit = False, out = []\<rparr>"
  have P: "(1::int) \<le> 3 \<and> (3::int) \<le> 20" by simp
  note T = triangle_lines [of 3 ?c, THEN mp, OF P, unfolded Let_def]
  note R = T [THEN conjunct2, THEN conjunct1, rule_format]
  note V = T [THEN conjunct2, THEN conjunct2, THEN conjunct2, rule_format]
  from T R [of 1] R [of 2] R [of 3] V [of 1] V [of 2] V [of 3]
  show ?thesis
    by (simp add: Let_def numeral_2_eq_2 numeral_3_eq_3)
qed

section \<open>The pause\<close>

lemma out_ignore_line: "out (ignore_line c) = out c"
  by (simp add: ignore_line_def split: list.splits)

lemma out_get: "out (get c) = out c"
  by (simp add: get_def split: list.splits)

lemma out_pauseBuffer: "out (UI_pauseBuffer c) = out c @ [press_enter]"
  by (simp add: UI_pauseBuffer_def out_get out_ignore_line cout_def press_enter_def)

lemma ignore_line_cases:
  "good c \<Longrightarrow> dropWhile (\<lambda>ch. ch \<noteq> newline) (inp c) = [] \<Longrightarrow>
     ignore_line c = c\<lparr>inp := [], eofbit := True\<rparr>"
  "good c \<Longrightarrow> dropWhile (\<lambda>ch. ch \<noteq> newline) (inp c) = r # rs \<Longrightarrow>
     ignore_line c = c\<lparr>inp := rs\<rparr>"
  by (simp_all add: ignore_line_def del: dropWhile_eq_Nil_conv)

lemma drop_line_cases:
  "dropWhile (\<lambda>ch. ch \<noteq> newline) s = [] \<Longrightarrow> drop_line s = []"
  "dropWhile (\<lambda>ch. ch \<noteq> newline) s = r # rs \<Longrightarrow> drop_line s = rs"
  by (simp_all add: drop_line_def del: dropWhile_eq_Nil_conv)

lemma inp_ignore_line: "good c \<Longrightarrow> inp (ignore_line c) = drop_line (inp c)"
  by (cases "dropWhile (\<lambda>ch. ch \<noteq> newline) (inp c)")
     (simp_all add: ignore_line_cases drop_line_cases del: dropWhile_eq_Nil_conv)

lemma dropWhile_line:
  "newline \<notin> set line \<Longrightarrow> dropWhile (\<lambda>ch. ch \<noteq> newline) (line @ newline # rest) = newline # rest"
  by (induction line) auto

lemma drop_line_line:
  "newline \<notin> set line \<Longrightarrow> drop_line (line @ newline # rest) = rest"
  by (simp add: drop_line_cases(2) [OF dropWhile_line])

lemma inp_get: "inp (get c) = (if good c then drop 1 (inp c) else inp c)"
  by (cases "inp c") (simp_all add: get_def)

lemma inp_pauseBuffer:
  assumes "good c"
  shows "inp (UI_pauseBuffer c) = drop 1 (drop_line (inp c))"
proof -
  let ?c = "cout press_enter c"
  have g: "good ?c" and i: "inp ?c = inp c"
    using assms by (simp_all add: good_cout inp_cout)
  have u: "UI_pauseBuffer c = get (ignore_line ?c)"
    by (simp add: UI_pauseBuffer_def press_enter_def)
  show ?thesis
  proof (cases "dropWhile (\<lambda>ch. ch \<noteq> newline) (inp ?c)")
    case Nil
    from ignore_line_cases(1) [OF g Nil] drop_line_cases(1) [OF Nil] i
    show ?thesis by (simp add: u inp_get)
  next
    case (Cons r rs)
    from ignore_line_cases(2) [OF g Cons] drop_line_cases(2) [OF Cons] i g
    show ?thesis by (simp add: u inp_get good_def)
  qed
qed

text \<open>
  C8, as the code has it. On a good stream \<^verbatim>\<open>UI::pauseBuffer\<close> prints its prompt,
  discards the rest of the pending line up to and including its new line, and then
  consumes exactly one more character, if there is one. When the line after the pending
  one is empty (Enter alone) it is consumed whole; otherwise only its first character
  is.
\<close>

theorem pauseBuffer_consumes:
  "good c \<longrightarrow>
     inp (UI_pauseBuffer c) = drop 1 (drop_line (inp c))
     \<and> out (UI_pauseBuffer c) = out c @ [press_enter]
     \<and> (\<forall>line rest. newline \<notin> set line \<and> inp c = line @ newline # newline # rest \<longrightarrow>
           inp (UI_pauseBuffer c) = rest)
     \<and> (\<forall>line ch rest. newline \<notin> set line \<and> inp c = line @ newline # ch # rest \<longrightarrow>
           inp (UI_pauseBuffer c) = rest)"
proof (intro impI conjI allI; (elim conjE)?)
  assume g: "good c"
  show "inp (UI_pauseBuffer c) = drop 1 (drop_line (inp c))"
    using g by (rule inp_pauseBuffer)
  show "out (UI_pauseBuffer c) = out c @ [press_enter]"
    by (rule out_pauseBuffer)
  show "inp (UI_pauseBuffer c) = rest"
    if "newline \<notin> set line" "inp c = line @ newline # newline # rest" for line rest
    using that by (simp add: inp_pauseBuffer [OF g] drop_line_line)
  show "inp (UI_pauseBuffer c) = rest"
    if "newline \<notin> set line" "inp c = line @ newline # ch # rest" for line ch rest
    using that by (simp add: inp_pauseBuffer [OF g] drop_line_line)
qed

text \<open>
  C8, as it is stated, fails: with the pending new line of the previous answer and the
  line \<^verbatim>\<open>abc\<close> typed at the pause, the pause consumes the new line and \<^verbatim>\<open>a\<close>;
  that is neither the input after one line nor the input after two.
\<close>

theorem pauseBuffer_one_line_counterexample:
  "inp (UI_pauseBuffer \<lparr>inp = ''\<newline>abc\<newline>5\<newline>'', failbit = False, eofbit = False, out = []\<rparr>)
     = ''bc\<newline>5\<newline>''
   \<and> drop_line ''\<newline>abc\<newline>5\<newline>'' = ''abc\<newline>5\<newline>''
   \<and> drop_line (drop_line ''\<newline>abc\<newline>5\<newline>'') = ''5\<newline>''"
  by (simp add: UI_pauseBuffer_def drop_line_def console_simps)

theorem pauseBuffer_consumes_witness:
  "inp (UI_pauseBuffer \<lparr>inp = ''\<newline>\<newline>5\<newline>'', failbit = False, eofbit = False, out = []\<rparr>)
     = ''5\<newline>''
   \<and> inp (UI_pauseBuffer \<lparr>inp = ''\<newline>abc\<newline>5\<newline>'', failbit = False, eofbit = False, out = []\<rparr>)
     = ''bc\<newline>5\<newline>''
   \<and> out (UI_pauseBuffer \<lparr>inp = ''\<newline>\<newline>5\<newline>'', failbit = False, eofbit = False, out = []\<rparr>)
     = [press_enter]"
proof -
  let ?c = "\<lambda>s. \<lparr>inp = s, failbit = False, eofbit = False, out = []\<rparr>"
  have g: "good (?c s)" for s by (simp add: good_def)
  note A = pauseBuffer_consumes [of "?c ''\<newline>\<newline>5\<newline>''", THEN mp, OF g]
  note B = pauseBuffer_consumes [of "?c ''\<newline>abc\<newline>5\<newline>''", THEN mp, OF g]
  have a: "inp (UI_pauseBuffer (?c ''\<newline>\<newline>5\<newline>'')) = ''5\<newline>''"
    using A [THEN conjunct2, THEN conjunct2, THEN conjunct1, rule_format, of "[]" "''5\<newline>''"]
    by (simp add: newline_def)
  have b: "inp (UI_pauseBuffer (?c ''\<newline>abc\<newline>5\<newline>'')) = ''bc\<newline>5\<newline>''"
    using B [THEN conjunct2, THEN conjunct2, THEN conjunct2, rule_format, of "[]" "CHR ''a''" "''bc\<newline>5\<newline>''"]
    by (simp add: newline_def)
  from a b A [THEN conjunct2, THEN conjunct1] show ?thesis by simp
qed

section \<open>Both triangles\<close>

lemma split_lines_line:
  "newline \<notin> set l \<Longrightarrow> split_lines cur (l @ newline # s) = (cur @ l) # split_lines [] s"
  by (induction l arbitrary: cur) auto

lemma split_lines_last:
  "newline \<notin> set t \<Longrightarrow> split_lines cur t = (if cur @ t = [] then [] else [cur @ t])"
  by (induction t arbitrary: cur) auto

lemma lines_of_text:
  assumes "\<forall>l\<in>set ls. newline \<notin> set l" and "newline \<notin> set t"
  shows "lines_of (concat (map (\<lambda>l. l @ [newline]) ls) @ t) = ls @ (if t = [] then [] else [t])"
  unfolding lines_of_def using assms
proof (induction ls)
  case Nil
  then show ?case by (simp add: split_lines_last)
next
  case (Cons l ls)
  then show ?case by (simp add: split_lines_line)
qed

lemma text_of_triangle:
  "text_of (concat (map (\<lambda>k. row_items (f k)) ks))
   = concat (map (\<lambda>l. l @ [newline]) (map (\<lambda>k. replicate (f k) CHR ''*'') ks))"
  by (simp add: text_of_rows map_concat comp_def)

lemma both_printed:
  "printed c (Triangle_switch dflt 3 height c)
   = [Txt (''Right Triangle:'' @ [newline])]
     @ concat (map (\<lambda>k. row_items (nat (k + 1))) [0..height - 1])
     @ [Txt (newline # ''Inverted Triangle:'' @ [newline])]
     @ concat (map (\<lambda>k. row_items (nat (height - k))) [0..height - 1])
     @ [press_enter]"
  by (simp add: Triangle_switch_def displayRightTriangle_def displayInvertedTriangle_def
      right_rows_couts inverted_rows_couts out_pauseBuffer printed_def cout_def couts_def)

lemma both_text:
  "text_of (printed c (Triangle_switch dflt 3 height c))
   = concat (map (\<lambda>l. l @ [newline])
       ([''Right Triangle:''] @ right_lines height @ ['''', ''Inverted Triangle:'']
        @ inverted_lines height @ ['''']))
     @ ''>>> Press Enter to continue...''"
  by (simp add: both_printed text_of_append text_of_triangle press_enter_def
      right_lines_def inverted_lines_def)

lemma stars_no_newline: "newline \<notin> set (replicate n CHR ''*'')"
  by (simp add: newline_def)

text \<open>
  C9, as the code has it. For every height, choice 3 of the triangle menu prints the
  line \<^verbatim>\<open>Right Triangle:\<close>, the right triangle, an empty line, the line
  \<^verbatim>\<open>Inverted Triangle:\<close>, the inverted triangle, and the pause prompt after another
  empty line.
\<close>

theorem both_triangles:
  "lines_of (text_of (printed c (Triangle_switch dflt 3 height c)))
   = [''Right Triangle:''] @ right_lines height
     @ ['''', ''Inverted Triangle:''] @ inverted_lines height
     @ ['''', ''>>> Press Enter to continue...'']"
proof -
  have "\<forall>l\<in>set ([''Right Triangle:''] @ right_lines height @ ['''', ''Inverted Triangle:'']
        @ inverted_lines height @ ['''']). newline \<notin> set l"
    by (auto simp: right_lines_def inverted_lines_def newline_def)
  moreover have "newline \<notin> set ''>>> Press Enter to continue...''"
    by (simp add: newline_def)
  ultimately show ?thesis
    unfolding both_text by (subst lines_of_text) simp_all
qed

text \<open>
  C9, as it is stated, fails: for height 2 an empty line stands between the right
  triangle and the label of the inverted one.
\<close>

theorem both_triangles_blank_line_counterexample:
  "lines_of (text_of (printed \<lparr>inp = [], failbit = False, eofbit = False, out = []\<rparr>
      (Triangle_switch Triangle_default 3 2 \<lparr>inp = [], failbit = False, eofbit = False, out = []\<rparr>)))
   = [''Right Triangle:'', ''*'', ''**'', '''', ''Inverted Triangle:'', ''**'', ''*'', '''',
      ''>>> Press Enter to continue...'']"
  by (simp add: Triangle_switch_def displayRightTriangle_def displayInvertedTriangle_def
      right_rows.simps right_row.simps inverted_rows.simps inverted_row.simps UI_pauseBuffer_def
      printed_def lines_of_def console_simps)

section \<open>The grade evaluator\<close>








lemmas reader_simps =
  getValidated.simps getValidatedChoice.simps getValidatedDouble.simps getValidatedYesNo.simps



section \<open>The currency conversion\<close>

lemma inp_couts: "inp (couts xs c) = inp c"
  by (simp add: couts_def)


lemma out_cout: "out (cout x c) = out c @ [x]"
  by (simp add: cout_def)







section \<open>The menus\<close>

lemma to_string_5: "to_string (length menuItems) = ''5''"
  by (simp add: menuItems_def to_string.simps)

lemma prompt_5: "''Enter choice (1-'' @ to_string (length menuItems) @ ''): '' = ''Enter choice (1-5): ''"
  by (simp add: to_string_5)

lemma items_5: "int (length menuItems) = 5"
  by (simp add: menuItems_def)

lemma Program_body_step:
  assumes "getValidatedChoice ''Enter choice (1-5): '' 1 5 (Program_menu c) = Some (k, c1)"
  shows "Program_body d c =
           (if k = 1 then Some (Next (VirtualStudentInfo_run c1))
            else if k = 2 then map_option Next (StudentGradeEvaluator_run c1)
            else if k = 3 then map_option Next (TriangleLoopActivity_run c1)
            else if k = 4 then map_option Next (CurrencyExchangeCalculator_run c1)
            else if k = 5
            then Some (Break (UI_goodbyeMessage (''Exiting program... Goodbye!'' @ [newline]) c1))
            else Some (Next (d c1)))"
  unfolding Program_body_def prompt_5 items_5 assms by simp

lemma Program_loop_step:
  assumes "getValidatedChoice ''Enter choice (1-5): '' 1 5 (Program_menu c) = Some (k, c1)"
  shows "forever (Program_body d) c =
           (if k = 1 then forever (Program_body d) (VirtualStudentInfo_run c1)
            else if k = 2 then Option.bind (StudentGradeEvaluator_run c1) (forever (Program_body d))
            else if k = 3 then Option.bind (TriangleLoopActivity_run c1) (forever (Program_body d))
            else if k = 4 then Option.bind (CurrencyExchangeCalculator_run c1) (forever (Program_body d))
            else if k = 5 then Some (UI_goodbyeMessage (''Exiting program... Goodbye!'' @ [newline]) c1)
            else forever (Program_body d) (d c1))"
  by (subst forever.simps) (simp add: Program_body_step [OF assms] split: option.splits)

lemma Triangle_loop_exit:
  assumes "getValidatedChoice ''Enter choice (1-4): '' 1 4 (Triangle_menu c) = Some (4, c1)"
  shows "forever (Triangle_body d) c =
           Some (UI_goodbyeMessage (''Successfully Navigated to Main Menu'' @ [newline, newline])
                  (UI_goodbyeMessage (''Exiting Triangle Activity...'' @ [newline]) c1))"
  using assms by (subst forever.simps) (simp add: Triangle_body_def)

lemma Triangle_loop_step:
  assumes "getValidatedChoice ''Enter choice (1-4): '' 1 4 (Triangle_menu c) = Some (k, c1)"
    and "k \<noteq> 4"
    and "getValidatedChoice ''Enter height (1-20): '' 1 20 c1 = Some (h, c2)"
  shows "forever (Triangle_body d) c =
           forever (Triangle_body d)
             (cout (Txt [newline]) (Triangle_switch d k h (cout (Txt [newline]) c2)))"
  using assms by (subst forever.simps) (simp add: Triangle_body_def)

lemma Currency_loop_step:
  assumes "getValidatedChoice ''Enter choice (1-3): '' 1 3 (Currency_menu c) = Some (k, c1)"
  shows "forever (Currency_body d) c =
           (if k = 3
            then Some (UI_goodbyeMessage (''Successfully Navigated to Main Menu'' @ [newline, newline])
                   (UI_goodbyeMessage (''Exiting Currency Exchange Calculator...'' @ [newline]) c1))
            else if k = 1
            then Option.bind (convertCurrency c1) (\<lambda>c2. forever (Currency_body d) (UI_pauseBuffer c2))
            else if k = 2 then forever (Currency_body d) (UI_pauseBuffer (displayRates c1))
            else forever (Currency_body d) (d c1))"
  using assms
  by (subst forever.simps) (simp add: Currency_body_def split: option.splits)

lemma choice_numeral:
  assumes "good c" and "ds \<noteq> []" and "\<forall>ch\<in>set ds. isdigit ch" and "\<not> isdigit g"
    and "int (dec ds) \<le> INT_MAX" and "inp c = ds @ g # rest"
    and "mn \<le> int (dec ds)" and "int (dec ds) \<le> mx"
  shows "getValidatedChoice prompt mn mx c
         = Some (int (dec ds), (cout (Txt prompt) c)\<lparr>inp := g # rest\<rparr>)"
proof -
  have "good (cout (Txt prompt) c)" and "inp (cout (Txt prompt) c) = ds @ g # rest"
    using assms(1,6) by (simp_all add: good_cout inp_cout)
  then have "extract_int (cout (Txt prompt) c)
             = (Some (int (dec ds)), (cout (Txt prompt) c)\<lparr>inp := g # rest\<rparr>)"
    using assms(2,3,4,5) by (intro extract_int_numeral)
  then show ?thesis
    using assms(7,8) by (rule choice_accept)
qed

lemma good_couts: "good (couts xs c) = good c"
  by (simp add: good_def couts_def)

lemma inp_show_items: "inp (show_items i items c) = inp c"
  by (induction i items c rule: show_items.induct) (simp_all add: inp_couts)

lemma good_show_items: "good (show_items i items c) = good c"
  by (induction i items c rule: show_items.induct) (simp_all add: good_couts)

lemma menus_keep_input:
  "inp (Program_menu c) = inp c" "good (Program_menu c) = good c"
  "inp (Triangle_menu c) = inp c" "good (Triangle_menu c) = good c"
  "inp (Currency_menu c) = inp c" "good (Currency_menu c) = good c"
  by (simp_all add: Program_menu_def Triangle_menu_def Currency_menu_def UI_line_def UI_header_def
      inp_couts good_couts inp_cout good_cout inp_show_items good_show_items)

text \<open>
  C7. In each menu loop, once the validated choice is in: the last choice (5 in the main
  menu, 4 in the triangle menu, 3 in the currency menu) ends the loop with the goodbye
  message and runs no activity; every other choice runs its one activity (for the
  triangle menu after the height is read, and the branch of the switch is the one of
  the choice) and the loop goes on from the console the activity left, that is, with
  the same menu again. A run of an activity that never returns makes the loop never
  return.
\<close>

theorem menu_dispatch:
  "(\<forall>c k c1. getValidatedChoice ''Enter choice (1-5): '' 1 5 (Program_menu c) = Some (k, c1) \<longrightarrow>
       (k = 5 \<longrightarrow> Program_loop c
                   = Some (UI_goodbyeMessage (''Exiting program... Goodbye!'' @ [newline]) c1))
     \<and> (k = 1 \<longrightarrow> Program_loop c = Program_loop (VirtualStudentInfo_run c1))
     \<and> (k = 2 \<longrightarrow> Program_loop c = Option.bind (StudentGradeEvaluator_run c1) Program_loop)
     \<and> (k = 3 \<longrightarrow> Program_loop c = Option.bind (TriangleLoopActivity_run c1) Program_loop)
     \<and> (k = 4 \<longrightarrow> Program_loop c = Option.bind (CurrencyExchangeCalculator_run c1) Program_loop))
   \<and> (\<forall>c k c1. getValidatedChoice ''Enter choice (1-4): '' 1 4 (Triangle_menu c) = Some (k, c1) \<longrightarrow>
       (k = 4 \<longrightarrow> Triangle_loop c
                   = Some (UI_goodbyeMessage (''Successfully Navigated to Main Menu'' @ [newline, newline])
                            (UI_goodbyeMessage (''Exiting Triangle Activity...'' @ [newline]) c1)))
     \<and> (\<forall>h c2. k \<noteq> 4 \<and> getValidatedChoice ''Enter height (1-20): '' 1 20 c1 = Some (h, c2) \<longrightarrow>
           Triangle_loop c
           = Triangle_loop
               (cout (Txt [newline]) (Triangle_switch Triangle_default k h (cout (Txt [newline]) c2)))))
   \<and> (\<forall>h c.
         Triangle_switch Triangle_default 1 h c
         = UI_pauseBuffer (displayRightTriangle h (cout (Txt (''Right Triangle:'' @ [newline])) c))
       \<and> Triangle_switch Triangle_default 2 h c
         = UI_pauseBuffer (displayInvertedTriangle h (cout (Txt (''Inverted Triangle:'' @ [newline])) c))
       \<and> Triangle_switch Triangle_default 3 h c
         = UI_pauseBuffer
             (displayInvertedTriangle h
                (cout (Txt (newline # ''Inverted Triangle:'' @ [newline]))
                   (displayRightTriangle h (cout (Txt (''Right Triangle:'' @ [newline])) c)))))
   \<and> (\<forall>c k c1. getValidatedChoice ''Enter choice (1-3): '' 1 3 (Currency_menu c) = Some (k, c1) \<longrightarrow>
       (k = 3 \<longrightarrow> CurrencyExchangeCalculator_run c
                   = Some (UI_goodbyeMessage (''Successfully Navigated to Main Menu'' @ [newline, newline])
                            (UI_goodbyeMessage (''Exiting Currency Exchange Calculator...'' @ [newline]) c1)))
     \<and> (k = 1 \<longrightarrow> CurrencyExchangeCalculator_run c
                   = Option.bind (convertCurrency c1)
                       (\<lambda>c2. CurrencyExchangeCalculator_run (UI_pauseBuffer c2)))
     \<and> (k = 2 \<longrightarrow> CurrencyExchangeCalculator_run c
                   = CurrencyExchangeCalculator_run (UI_pauseBuffer (displayRates c1))))"
proof (intro conjI allI impI; (elim conjE)?)
  fix c k c1
  assume h: "getValidatedChoice ''Enter choice (1-5): '' 1 5 (Program_menu c) = Some (k, c1)"
  note s = Program_loop_step [OF h, of Program_default]
  have l: "Program_loop = forever (Program_body Program_default)"
    by (rule ext) (simp add: Program_loop_def)
  show "Program_loop c = Some (UI_goodbyeMessage (''Exiting program... Goodbye!'' @ [newline]) c1)"
    if "k = 5" using s that by (simp add: l)
  show "Program_loop c = Program_loop (VirtualStudentInfo_run c1)"
    if "k = 1" using s that by (simp add: l)
  show "Program_loop c = Option.bind (StudentGradeEvaluator_run c1) Program_loop"
    if "k = 2" using s that by (simp add: l)
  show "Program_loop c = Option.bind (TriangleLoopActivity_run c1) Program_loop"
    if "k = 3" using s that by (simp add: l)
  show "Program_loop c = Option.bind (CurrencyExchangeCalculator_run c1) Program_loop"
    if "k = 4" using s that by (simp add: l)
next
  fix c k c1
  assume h: "getValidatedChoice ''Enter choice (1-4): '' 1 4 (Triangle_menu c) = Some (k, c1)"
  show "Triangle_loop c
        = Some (UI_goodbyeMessage (''Successfully Navigated to Main Menu'' @ [newline, newline])
                 (UI_goodbyeMessage (''Exiting Triangle Activity...'' @ [newline]) c1))"
    if "k = 4" using h that by (simp add: Triangle_loop_def Triangle_loop_exit)
  show "Triangle_loop c
        = Triangle_loop
            (cout (Txt [newline]) (Triangle_switch Triangle_default k h (cout (Txt [newline]) c2)))"
    if "k \<noteq> 4" "getValidatedChoice ''Enter height (1-20): '' 1 20 c1 = Some (h, c2)" for h c2
    using Triangle_loop_step [OF h that] by (simp add: Triangle_loop_def)
next
  fix c k c1
  assume h: "getValidatedChoice ''Enter choice (1-3): '' 1 3 (Currency_menu c) = Some (k, c1)"
  note s = Currency_loop_step [OF h, of Currency_default]
  have l: "CurrencyExchangeCalculator_run = forever (Currency_body Currency_default)"
    by (rule ext) (simp add: CurrencyExchangeCalculator_run_def)
  show "CurrencyExchangeCalculator_run c
        = Some (UI_goodbyeMessage (''Successfully Navigated to Main Menu'' @ [newline, newline])
                 (UI_goodbyeMessage (''Exiting Currency Exchange Calculator...'' @ [newline]) c1))"
    if "k = 3" using s that by (simp add: l)
  show "CurrencyExchangeCalculator_run c
        = Option.bind (convertCurrency c1) (\<lambda>c2. CurrencyExchangeCalculator_run (UI_pauseBuffer c2))"
    if "k = 1" using s that by (simp add: l)
  show "CurrencyExchangeCalculator_run c
        = CurrencyExchangeCalculator_run (UI_pauseBuffer (displayRates c1))"
    if "k = 2" using s that by (simp add: l)
qed (simp_all add: Triangle_switch_def)


theorem menu_dispatch_witness:
  "Program_loop \<lparr>inp = ''5\<newline>'', failbit = False, eofbit = False, out = []\<rparr>
   = Some (UI_goodbyeMessage (''Exiting program... Goodbye!'' @ [newline])
       ((cout (Txt ''Enter choice (1-5): '')
          (Program_menu \<lparr>inp = ''5\<newline>'', failbit = False, eofbit = False, out = []\<rparr>))
        \<lparr>inp := ''\<newline>''\<rparr>))
   \<and> Program_loop \<lparr>inp = ''1\<newline>\<newline>5\<newline>'', failbit = False, eofbit = False, out = []\<rparr>
   = Program_loop (VirtualStudentInfo_run
       ((cout (Txt ''Enter choice (1-5): '')
          (Program_menu \<lparr>inp = ''1\<newline>\<newline>5\<newline>'', failbit = False, eofbit = False, out = []\<rparr>))
        \<lparr>inp := ''\<newline>\<newline>5\<newline>''\<rparr>))
   \<and> Triangle_loop \<lparr>inp = ''4\<newline>'', failbit = False, eofbit = False, out = []\<rparr>
   = Some (UI_goodbyeMessage (''Successfully Navigated to Main Menu'' @ [newline, newline])
       (UI_goodbyeMessage (''Exiting Triangle Activity...'' @ [newline])
         ((cout (Txt ''Enter choice (1-4): '')
            (Triangle_menu \<lparr>inp = ''4\<newline>'', failbit = False, eofbit = False, out = []\<rparr>))
          \<lparr>inp := ''\<newline>''\<rparr>)))
   \<and> CurrencyExchangeCalculator_run \<lparr>inp = ''2\<newline>\<newline>3\<newline>'', failbit = False, eofbit = False, out = []\<rparr>
   = CurrencyExchangeCalculator_run (UI_pauseBuffer (displayRates
       ((cout (Txt ''Enter choice (1-3): '')
          (Currency_menu \<lparr>inp = ''2\<newline>\<newline>3\<newline>'', failbit = False, eofbit = False, out = []\<rparr>))
        \<lparr>inp := ''\<newline>\<newline>3\<newline>''\<rparr>)))"
proof -
  let ?c = "\<lambda>s. \<lparr>inp = s, failbit = False, eofbit = False, out = []\<rparr>"
  have g: "good (?c s)" for s by (simp add: good_def)
  have a: "getValidatedChoice ''Enter choice (1-5): '' 1 5 (Program_menu (?c ''5\<newline>''))
           = Some (5, (cout (Txt ''Enter choice (1-5): '') (Program_menu (?c ''5\<newline>'')))\<lparr>inp := ''\<newline>''\<rparr>)"
    using choice_numeral [of "Program_menu (?c ''5\<newline>'')" "''5''" "CHR ''\<newline>''" "[]" 1 5
        "''Enter choice (1-5): ''"]
    by (simp add: menus_keep_input g isdigit_def dec_def digit_val_def INT_MAX_def)
  have b: "getValidatedChoice ''Enter choice (1-5): '' 1 5 (Program_menu (?c ''1\<newline>\<newline>5\<newline>''))
           = Some (1, (cout (Txt ''Enter choice (1-5): '') (Program_menu (?c ''1\<newline>\<newline>5\<newline>'')))
                        \<lparr>inp := ''\<newline>\<newline>5\<newline>''\<rparr>)"
    using choice_numeral [of "Program_menu (?c ''1\<newline>\<newline>5\<newline>'')" "''1''" "CHR ''\<newline>''" "''\<newline>5\<newline>''" 1 5
        "''Enter choice (1-5): ''"]
    by (simp add: menus_keep_input g isdigit_def dec_def digit_val_def INT_MAX_def)
  have c: "getValidatedChoice ''Enter choice (1-4): '' 1 4 (Triangle_menu (?c ''4\<newline>''))
           = Some (4, (cout (Txt ''Enter choice (1-4): '') (Triangle_menu (?c ''4\<newline>'')))\<lparr>inp := ''\<newline>''\<rparr>)"
    using choice_numeral [of "Triangle_menu (?c ''4\<newline>'')" "''4''" "CHR ''\<newline>''" "[]" 1 4
        "''Enter choice (1-4): ''"]
    by (simp add: menus_keep_input g isdigit_def dec_def digit_val_def INT_MAX_def)
  have d: "getValidatedChoice ''Enter choice (1-3): '' 1 3 (Currency_menu (?c ''2\<newline>\<newline>3\<newline>''))
           = Some (2, (cout (Txt ''Enter choice (1-3): '') (Currency_menu (?c ''2\<newline>\<newline>3\<newline>'')))
                        \<lparr>inp := ''\<newline>\<newline>3\<newline>''\<rparr>)"
    using choice_numeral [of "Currency_menu (?c ''2\<newline>\<newline>3\<newline>'')" "''2''" "CHR ''\<newline>''" "''\<newline>3\<newline>''" 1 3
        "''Enter choice (1-3): ''"]
    by (simp add: menus_keep_input g isdigit_def dec_def digit_val_def INT_MAX_def)
  note T = menu_dispatch
  from T [THEN conjunct1, rule_format, OF a, THEN conjunct1]
    T [THEN conjunct1, rule_format, OF b, THEN conjunct2, THEN conjunct1]
    T [THEN conjunct2, THEN conjunct1, rule_format, OF c, THEN conjunct1]
    T [THEN conjunct2, THEN conjunct2, THEN conjunct2, rule_format, OF d, THEN conjunct2, THEN conjunct2]
  show ?thesis by simp
qed


section \<open>The default branches\<close>

lemma choice_1_5:
  assumes "getValidatedChoice p 1 5 c = Some (k, c1)"
  shows "k \<in> {1, 2, 3, 4, 5}"
  using choice_range [OF assms] by auto

lemma choice_1_4:
  assumes "getValidatedChoice p 1 4 c = Some (k, c1)" and "k \<noteq> 4"
  shows "k \<in> {1, 2, 3}"
  using choice_range [OF assms(1)] assms(2) by auto

lemma choice_1_3:
  assumes "getValidatedChoice p 1 3 c = Some (k, c1)" and "k \<noteq> 3"
  shows "k \<in> {1, 2}"
  using choice_range [OF assms(1)] assms(2) by auto

lemma Program_body_default: "Program_body d c = Program_body d' c"
proof (cases "getValidatedChoice ''Enter choice (1-5): '' 1 5 (Program_menu c)")
  case None
  then show ?thesis
    unfolding Program_body_def prompt_5 items_5 by simp
next
  case (Some r)
  obtain k c1 where r: "r = (k, c1)" by (cases r)
  from Some r have h: "getValidatedChoice ''Enter choice (1-5): '' 1 5 (Program_menu c) = Some (k, c1)"
    by simp
  from choice_1_5 [OF h] show ?thesis
    by (auto simp: Program_body_step [OF h])
qed

lemma Triangle_switch_default:
  "k \<in> {1, 2, 3} \<Longrightarrow> Triangle_switch d k h c = Triangle_switch d' k h c"
  by (auto simp: Triangle_switch_def)

lemma Triangle_body_default: "Triangle_body d c = Triangle_body d' c"
proof (cases "getValidatedChoice ''Enter choice (1-4): '' 1 4 (Triangle_menu c)")
  case None
  then show ?thesis by (simp add: Triangle_body_def)
next
  case (Some r)
  obtain k c1 where r: "r = (k, c1)" by (cases r)
  from Some r have h: "getValidatedChoice ''Enter choice (1-4): '' 1 4 (Triangle_menu c) = Some (k, c1)"
    by simp
  show ?thesis
  proof (cases "k = 4")
    case True
    with h show ?thesis by (simp add: Triangle_body_def)
  next
    case False
    from choice_1_4 [OF h False] have "Triangle_switch d k h x = Triangle_switch d' k h x" for h x
      by (rule Triangle_switch_default)
    with h False show ?thesis
      by (simp add: Triangle_body_def split: option.splits)
  qed
qed

lemma Currency_body_default: "Currency_body d c = Currency_body d' c"
proof (cases "getValidatedChoice ''Enter choice (1-3): '' 1 3 (Currency_menu c)")
  case None
  then show ?thesis by (simp add: Currency_body_def)
next
  case (Some r)
  obtain k c1 where r: "r = (k, c1)" by (cases r)
  from Some r have h: "getValidatedChoice ''Enter choice (1-3): '' 1 3 (Currency_menu c) = Some (k, c1)"
    by simp
  show ?thesis
  proof (cases "k = 3")
    case True
    with h show ?thesis by (simp add: Currency_body_def)
  next
    case False
    from choice_1_3 [OF h False] h False show ?thesis
      by (auto simp: Currency_body_def)
  qed
qed

text \<open>
  C10. The \<^verbatim>\<open>default:\<close> branch of the three menu switches is never taken: whatever
  that branch would do, the loop bodies and the menus behave the same. The reason is
  that a validated choice of the main menu is one of 1 to 5, one of the triangle menu
  that is not the exit choice 4 is one of 1 to 3, and one of the currency menu that is
  not the exit choice 3 is 1 or 2, and each of these has its own \<^verbatim>\<open>case\<close>.
\<close>

theorem default_unreachable:
  "(\<forall>d c. Program_body d c = Program_body Program_default c)
   \<and> (\<forall>d c. Triangle_body d c = Triangle_body Triangle_default c)
   \<and> (\<forall>d c. Currency_body d c = Currency_body Currency_default c)
   \<and> (\<forall>d c. forever (Program_body d) c = Program_loop c)
   \<and> (\<forall>d c. forever (Triangle_body d) c = Triangle_loop c)
   \<and> (\<forall>d c. forever (Currency_body d) c = CurrencyExchangeCalculator_run c)
   \<and> (\<forall>p c k c1. getValidatedChoice p 1 5 c = Some (k, c1) \<longrightarrow> k \<in> {1, 2, 3, 4, 5})
   \<and> (\<forall>p c k c1. getValidatedChoice p 1 4 c = Some (k, c1) \<and> k \<noteq> 4 \<longrightarrow> k \<in> {1, 2, 3})
   \<and> (\<forall>p c k c1. getValidatedChoice p 1 3 c = Some (k, c1) \<and> k \<noteq> 3 \<longrightarrow> k \<in> {1, 2})"
proof (intro conjI allI impI; (elim conjE)?)
  fix d :: "console \<Rightarrow> console" and c
  have p: "Program_body d = Program_body Program_default"
    by (rule ext) (rule Program_body_default)
  have t: "Triangle_body d = Triangle_body Triangle_default"
    by (rule ext) (rule Triangle_body_default)
  have u: "Currency_body d = Currency_body Currency_default"
    by (rule ext) (rule Currency_body_default)
  show "Program_body d c = Program_body Program_default c"
    by (rule Program_body_default)
  show "Triangle_body d c = Triangle_body Triangle_default c"
    by (rule Triangle_body_default)
  show "Currency_body d c = Currency_body Currency_default c"
    by (rule Currency_body_default)
  show "forever (Program_body d) c = Program_loop c"
    by (simp add: p Program_loop_def)
  show "forever (Triangle_body d) c = Triangle_loop c"
    by (simp add: t Triangle_loop_def)
  show "forever (Currency_body d) c = CurrencyExchangeCalculator_run c"
    by (simp add: u CurrencyExchangeCalculator_run_def)
qed (erule choice_1_5 choice_1_4 choice_1_3, (assumption)?)+

theorem default_unreachable_witness:
  "getValidatedChoice ''Enter choice (1-5): '' 1 5
     \<lparr>inp = ''3\<newline>'', failbit = False, eofbit = False, out = []\<rparr>
   = Some (3, \<lparr>inp = ''\<newline>'', failbit = False, eofbit = False, out = [Txt ''Enter choice (1-5): '']\<rparr>)
   \<and> (3::int) \<in> {1, 2, 3, 4, 5}
   \<and> getValidatedChoice ''Enter choice (1-4): '' 1 4
     \<lparr>inp = ''2\<newline>'', failbit = False, eofbit = False, out = []\<rparr>
   = Some (2, \<lparr>inp = ''\<newline>'', failbit = False, eofbit = False, out = [Txt ''Enter choice (1-4): '']\<rparr>)
   \<and> (2::int) \<noteq> 4 \<and> (2::int) \<in> {1, 2, 3}
   \<and> getValidatedChoice ''Enter choice (1-3): '' 1 3
     \<lparr>inp = ''1\<newline>'', failbit = False, eofbit = False, out = []\<rparr>
   = Some (1, \<lparr>inp = ''\<newline>'', failbit = False, eofbit = False, out = [Txt ''Enter choice (1-3): '']\<rparr>)
   \<and> (1::int) \<noteq> 3 \<and> (1::int) \<in> {1, 2}
   \<and> Program_body (\<lambda>c. c\<lparr>inp := []\<rparr>) \<lparr>inp = ''3\<newline>'', failbit = False, eofbit = False, out = []\<rparr>
     = Program_body Program_default \<lparr>inp = ''3\<newline>'', failbit = False, eofbit = False, out = []\<rparr>"
proof -
  note T = default_unreachable
  let ?c = "\<lambda>s. \<lparr>inp = s, failbit = False, eofbit = False, out = []\<rparr>"
  note R = T [THEN conjunct2, THEN conjunct2, THEN conjunct2, THEN conjunct2, THEN conjunct2,
    THEN conjunct2]
  have a: "getValidatedChoice ''Enter choice (1-5): '' 1 5 (?c ''3\<newline>'')
   = Some (3, \<lparr>inp = ''\<newline>'', failbit = False, eofbit = False, out = [Txt ''Enter choice (1-5): '']\<rparr>)"
    by (simp add: reader_simps console_simps)
  have b: "getValidatedChoice ''Enter choice (1-4): '' 1 4 (?c ''2\<newline>'')
   = Some (2, \<lparr>inp = ''\<newline>'', failbit = False, eofbit = False, out = [Txt ''Enter choice (1-4): '']\<rparr>)"
    by (simp add: reader_simps console_simps)
  have c: "getValidatedChoice ''Enter choice (1-3): '' 1 3 (?c ''1\<newline>'')
   = Some (1, \<lparr>inp = ''\<newline>'', failbit = False, eofbit = False, out = [Txt ''Enter choice (1-3): '']\<rparr>)"
    by (simp add: reader_simps console_simps)
  have n: "(2::int) \<noteq> 4" "(1::int) \<noteq> 3" by simp_all
  from a b c n
    R [THEN conjunct1, rule_format, OF a]
    R [THEN conjunct2, THEN conjunct1, rule_format, OF conjI, OF b n(1)]
    R [THEN conjunct2, THEN conjunct2, rule_format, OF conjI, OF c n(2)]
    T [THEN conjunct1, rule_format, of "\<lambda>c. c\<lparr>inp := []\<rparr>" "?c ''3\<newline>''"]
  show ?thesis by simp
qed

section \<open>End of input\<close>

text \<open>
  Once the input is exhausted every extraction fails and \<^verbatim>\<open>ignore\<close> has nothing to
  drop, so the retry loop of \<^verbatim>\<open>getValidated\<close> goes round for ever: none of the readers
  returns, with a default value or otherwise.
\<close>

lemma sentry_at_end:
  assumes "inp c = []"
  obtains c1 where "sentry c = (False, c1)" and "failbit c1" and "inp c1 = []"
  using assms by (cases "good c") (simp_all add: sentry_def)

lemma extractions_fail_at_end:
  "fails_at_end extract_int" "fails_at_end extract_double" "fails_at_end extract_string"
proof -
  have "fst (extract_int c) = None \<and> failbit (snd (extract_int c)) \<and> inp (snd (extract_int c)) = []"
    if "inp c = []" for c
    using that by (rule sentry_at_end) (simp add: extract_int_def)
  then show "fails_at_end extract_int"
    by (simp add: fails_at_end_def)
  have "fst (extract_double c) = None \<and> failbit (snd (extract_double c))
        \<and> inp (snd (extract_double c)) = []"
    if "inp c = []" for c
    using that by (rule sentry_at_end) (simp add: extract_double_def)
  then show "fails_at_end extract_double"
    by (simp add: fails_at_end_def)
  have "fst (extract_string c) = None \<and> failbit (snd (extract_string c))
        \<and> inp (snd (extract_string c)) = []"
    if "inp c = []" for c
    using that by (rule sentry_at_end) (simp add: extract_string_def)
  then show "fails_at_end extract_string"
    by (simp add: fails_at_end_def)
qed

lemma inp_ignore_line_end: "inp c = [] \<Longrightarrow> inp (ignore_line c) = []"
  by (simp add: ignore_line_def)

lemma getValidated_at_end:
  assumes "fails_at_end rd" and "inp c = []"
  shows "getValidated rd prompt c = None"
proof (rule ccontr)
  assume "getValidated rd prompt c \<noteq> None"
  then obtain r where r: "getValidated rd prompt c = Some r" by auto
  have "fails_at_end rd \<longrightarrow> inp c \<noteq> []"
  proof (rule getValidated.raw_induct
      [where P = "\<lambda>rd p c r. fails_at_end rd \<longrightarrow> inp c \<noteq> []", OF _ r], intro impI notI, goal_cases)
    case (1 f rd p c r)
    let ?c = "cout (Txt p) c"
    obtain v c1 where e: "rd ?c = (v, c1)" by (cases "rd ?c")
    have i: "inp ?c = []" using 1(4) by (simp add: inp_cout)
    from 1(3) i e have v: "v = None" and b: "failbit c1" and n: "inp c1 = []"
      unfolding fails_at_end_def by (metis fst_conv snd_conv)+
    from 1(2) e b have "f rd p (ignore_line (clear (cout invalid_input c1))) = Some r"
      by simp
    from 1(1) [OF this] 1(3) have "inp (ignore_line (clear (cout invalid_input c1))) \<noteq> []"
      by simp
    moreover have "inp (ignore_line (clear (cout invalid_input c1))) = []"
      using n by (intro inp_ignore_line_end) (simp add: clear_def cout_def)
    ultimately show ?case by simp
  qed
  with assms show False by simp
qed

lemma readers_at_end_of_input:
  assumes "inp c = []"
  shows "getValidatedChoice prompt mn mx c = None"
    and "getValidatedDouble prompt lo hi c = None"
    and "getValidatedYesNo prompt c = None"
  using assms
  by (simp_all add: getValidatedChoice.simps [of prompt mn mx c]
      getValidatedDouble.simps [of prompt lo hi c] getValidatedYesNo.simps [of prompt c]
      getValidated_at_end extractions_fail_at_end)

end
